theory Spec2Isabelle
  imports Main "HOL-Library.Word"
begin

section \<open>Versions (version.go)\<close>

text \<open>
  A Go \<open>uint64\<close> is a 64-bit word: \<open>+\<close> wraps around, \<open><\<close> is the unsigned order.
  The optional components \<open>minor\<close> and \<open>patch\<close> are \<open>*uint64\<close> in the source; at the level
  of values a nil pointer is \<open>None\<close> and a pointer to \<open>x\<close> is \<open>Some x\<close>. The pointer-level
  model, with an explicit store, follows in its own section and is related to this one there.
\<close>

type_synonym uint64 = "64 word"

record Version =
  major :: uint64
  minor :: "uint64 option"
  patch :: "uint64 option"
  preRelease :: string
  buildMetadata :: string

text \<open>The zero value \<open>Version{}\<close>.\<close>

definition zeroVersion :: Version where
  "zeroVersion = \<lparr>major = 0, minor = None, patch = None, preRelease = [], buildMetadata = []\<rparr>"

definition NewVersion :: "uint64 \<Rightarrow> uint64 \<Rightarrow> uint64 \<Rightarrow> Version" where
  "NewVersion ma mi pa =
     \<lparr>major = ma, minor = Some mi, patch = Some pa, preRelease = [], buildMetadata = []\<rparr>"

definition NewPreReleaseVersion :: "uint64 \<Rightarrow> uint64 \<Rightarrow> uint64 \<Rightarrow> string \<Rightarrow> Version" where
  "NewPreReleaseVersion ma mi pa pre =
     \<lparr>major = ma, minor = Some mi, patch = Some pa, preRelease = pre, buildMetadata = []\<rparr>"

definition Major :: "Version \<Rightarrow> uint64" where
  "Major v = major v"

definition Minor :: "Version \<Rightarrow> uint64" where
  "Minor v = (case minor v of None \<Rightarrow> 0 | Some m \<Rightarrow> m)"

definition Patch :: "Version \<Rightarrow> uint64" where
  "Patch v = (case patch v of None \<Rightarrow> 0 | Some p \<Rightarrow> p)"

text \<open>\<open>clone\<close> copies the two optional components when they are present.\<close>

definition clone :: "Version \<Rightarrow> Version" where
  "clone v =
     \<lparr>major = major v,
      minor = (case minor v of None \<Rightarrow> None | Some minorVal \<Rightarrow> Some minorVal),
      patch = (case patch v of None \<Rightarrow> None | Some patchVal \<Rightarrow> Some patchVal),
      preRelease = preRelease v,
      buildMetadata = buildMetadata v\<rparr>"

definition SetPreRelease :: "Version \<Rightarrow> string \<Rightarrow> Version" where
  "SetPreRelease v pre = (clone v)\<lparr>preRelease := pre\<rparr>"

definition SetBuildMetadata :: "Version \<Rightarrow> string \<Rightarrow> Version" where
  "SetBuildMetadata v bm = (clone v)\<lparr>buildMetadata := bm\<rparr>"

text \<open>
  Go compares strings byte by byte, a proper prefix being smaller. A \<open>char\<close> is a byte and
  \<open>of_char\<close> reads its value.
\<close>

fun str_less :: "string \<Rightarrow> string \<Rightarrow> bool" where
  "str_less [] [] = False"
| "str_less [] (y # ys) = True"
| "str_less (x # xs) [] = False"
| "str_less (x # xs) (y # ys) =
     (if (of_char x :: nat) < of_char y then True
      else if (of_char y :: nat) < of_char x then False
      else str_less xs ys)"

definition Less :: "Version \<Rightarrow> Version \<Rightarrow> bool" where
  "Less v other =
     (if Major v \<noteq> Major other then Major v < Major other
      else if Minor v \<noteq> Minor other then Minor v < Minor other
      else if Patch v \<noteq> Patch other then Patch v < Patch other
      else if preRelease v = [] \<and> preRelease other \<noteq> [] then False
      else if preRelease v \<noteq> [] \<and> preRelease other = [] then True
      else str_less (preRelease v) (preRelease other))"

definition Greater :: "Version \<Rightarrow> Version \<Rightarrow> bool" where
  "Greater v other = (Less other v \<and> \<not> Less v other)"

definition Equal :: "Version \<Rightarrow> Version \<Rightarrow> bool" where
  "Equal v other = (\<not> Less v other \<and> \<not> Less other v)"

definition GreaterEqual :: "Version \<Rightarrow> Version \<Rightarrow> bool" where
  "GreaterEqual v other = (\<not> Less v other)"

definition LessEqual :: "Version \<Rightarrow> Version \<Rightarrow> bool" where
  "LessEqual v other = (\<not> Greater v other)"

definition Increment :: "Version \<Rightarrow> Version" where
  "Increment v =
     (let newVersion = (clone v)\<lparr>preRelease := [], buildMetadata := []\<rparr>
      in case patch v of
           Some p \<Rightarrow> newVersion\<lparr>patch := Some (p + 1)\<rparr>
         | None \<Rightarrow>
             (case minor v of
                Some m \<Rightarrow> newVersion\<lparr>minor := Some (m + 1)\<rparr>
              | None \<Rightarrow> newVersion\<lparr>major := major newVersion + 1\<rparr>))"

definition IncrementMajor :: "Version \<Rightarrow> Version" where
  "IncrementMajor v =
     \<lparr>major = major v + 1, minor = Some 0, patch = Some 0, preRelease = [], buildMetadata = []\<rparr>"

definition IncrementMinor :: "Version \<Rightarrow> Version" where
  "IncrementMinor v =
     (let newVersion = (clone v)\<lparr>preRelease := [], buildMetadata := [], patch := Some 0\<rparr>;
          newVersion = (if minor newVersion = None then newVersion\<lparr>minor := Some 0\<rparr>
                        else newVersion)
      in newVersion\<lparr>minor := map_option (\<lambda>m. m + 1) (minor newVersion)\<rparr>)"

definition IncrementPatch :: "Version \<Rightarrow> Version" where
  "IncrementPatch v =
     (let newVersion = (clone v)\<lparr>preRelease := [], buildMetadata := []\<rparr>;
          newVersion = (if minor newVersion = None then newVersion\<lparr>minor := Some 0\<rparr>
                        else newVersion);
          newVersion = (if patch newVersion = None then newVersion\<lparr>patch := Some 0\<rparr>
                        else newVersion)
      in newVersion\<lparr>patch := map_option (\<lambda>p. p + 1) (patch newVersion)\<rparr>)"

text \<open>
  \<open>IncrementPessimistic\<close> dereferences \<open>newVersion.minor\<close> without a nil check in the branch
  where \<open>patch\<close> is present. On a version with a patch and no minor the Go program panics with
  a nil pointer dereference: the result \<open>None\<close>. Every function that calls it inherits the
  possible panic, and returns an \<open>option\<close> as well.
\<close>

definition IncrementPessimistic :: "Version \<Rightarrow> Version option" where
  "IncrementPessimistic v =
     (let newVersion = (clone v)\<lparr>preRelease := [], buildMetadata := []\<rparr>
      in case patch newVersion of
           Some p \<Rightarrow>
             (case minor newVersion of
                None \<Rightarrow> None
              | Some m \<Rightarrow> Some (newVersion\<lparr>patch := Some 0, minor := Some (m + 1)\<rparr>))
         | None \<Rightarrow>
             (case minor newVersion of
                Some m \<Rightarrow> Some (newVersion\<lparr>minor := Some 0, major := major newVersion + 1\<rparr>)
              | None \<Rightarrow> Some (newVersion\<lparr>major := major newVersion + 1\<rparr>)))"

text \<open>The invariant that keeps \<open>IncrementPessimistic\<close> from panicking.\<close>

definition patch_needs_minor :: "Version \<Rightarrow> bool" where
  "patch_needs_minor v = (patch v = None \<or> minor v \<noteq> None)"

section \<open>Constraints (constraint.go)\<close>

text \<open>\<open>Operator\<close> is a named string type: any string is a value of it.\<close>

type_synonym Operator = string

definition EQ :: Operator where "EQ = ''=''"
definition NE :: Operator where "NE = ''!=''"
definition GT :: Operator where "GT = ''>''"
definition GE :: Operator where "GE = ''>=''"
definition LT :: Operator where "LT = ''<''"
definition LE :: Operator where "LE = ''<=''"
definition GEPessimistic :: Operator where "GEPessimistic = ''~>''"

record Constraint =
  operator :: Operator
  version :: Version

type_synonym Constraints = "Constraint list"

definition NewConstraint :: "Operator \<Rightarrow> Version \<Rightarrow> Constraint" where
  "NewConstraint op v = \<lparr>operator = op, version = v\<rparr>"

text \<open>
  In the \<open>~>\<close> case Go's \<open>&&\<close> evaluates its right operand, and with it
  \<open>IncrementPessimistic\<close>, only when the left one is true.
\<close>

definition Satisfies :: "Version \<Rightarrow> Constraint \<Rightarrow> bool option" where
  "Satisfies v c =
     (if operator c = EQ then Some (Equal v (version c))
      else if operator c = NE then Some (\<not> Equal v (version c))
      else if operator c = GT then Some (Greater v (version c))
      else if operator c = GE then Some (GreaterEqual v (version c))
      else if operator c = LT then Some (Less v (version c))
      else if operator c = LE then Some (LessEqual v (version c))
      else if operator c = GEPessimistic then
        (if GreaterEqual v (version c)
         then (case IncrementPessimistic (version c) of
                 None \<Rightarrow> None
               | Some w \<Rightarrow> Some (Less v w))
         else Some False)
      else Some False)"

definition Overlaps :: "Constraint \<Rightarrow> Constraint \<Rightarrow> bool option" where
  "Overlaps c c2 =
     (if operator c = EQ then Satisfies (version c) c2
      else if operator c = NE then map_option Not (Satisfies (version c) c2)
      else if operator c = GT then Some (LessEqual (version c) (version c2))
      else if operator c = GE \<and> operator c2 = GEPessimistic then
        Some (GreaterEqual (version c) (version c2) \<and> Less (version c) (Increment (version c2)))
      else if operator c2 = GE \<and> operator c = GEPessimistic then
        Some (GreaterEqual (version c2) (version c) \<and> Less (version c2) (Increment (version c)))
      else if operator c = GE then Some (Less (version c) (version c2))
      else if operator c = LT \<and> operator c2 = LE then Some (Less (version c2) (version c))
      else if operator c = LE \<and> operator c2 = LT then Some (Less (version c) (version c2))
      else if operator c = LT \<and> operator c2 = GEPessimistic then
        Some (Less (version c2) (version c) \<or> Equal (version c2) (version c))
      else if operator c2 = LT \<and> operator c = GEPessimistic then
        Some (Less (version c) (version c2) \<or> Equal (version c) (version c2))
      else if operator c = LT then Some (GreaterEqual (version c) (version c2))
      else if operator c = LE then Some (Greater (version c) (version c2))
      else if operator c = GEPessimistic then
        Some (GreaterEqual (version c2) (version c) \<and> Less (version c2) (Increment (version c)))
      else Some False)"

section \<open>Contradictions (contradiction.go)\<close>

definition checkContradict :: "Constraint \<Rightarrow> Constraint \<Rightarrow> bool option" where
  "checkContradict c1 c2 =
     (if operator c1 = operator c2 \<and> Equal (version c1) (version c2) then Some False
      else if operator c1 = ''>'' \<and> operator c2 = ''>='' \<and> LessEqual (version c1) (version c2)
        then Some False
      else if operator c1 = ''>='' \<and> operator c2 = ''>'' \<and> Greater (version c1) (version c2)
        then Some False
      else if operator c1 = ''!='' \<and> operator c2 = ''!=''
        then Some (Equal (version c1) (version c2))
      else if operator c1 = ''!='' then Satisfies (version c1) c2
      else if operator c2 = ''!='' then Satisfies (version c2) c1
      else map_option Not (Overlaps c1 c2))"

text \<open>
  The condition of the \<open>if\<close> in the loop body of \<open>Contradicts\<close>:
  \<open>checkContradict(c1, c2) || checkContradict(c2, c1)\<close>, the second call made only when the
  first one returns false.
\<close>

definition contradictEither :: "Constraint \<Rightarrow> Constraint \<Rightarrow> bool option" where
  "contradictEither c1 c2 =
     (case checkContradict c1 c2 of
        None \<Rightarrow> None
      | Some True \<Rightarrow> Some True
      | Some False \<Rightarrow> checkContradict c2 c1)"

text \<open>
  Go's \<open>error\<close> values, as far as \<open>Contradicts\<close> builds them: a \<open>ContradictionErr\<close> with its
  two constraints, or the \<open>joinError\<close> of the standard library with the errors it wraps.
  A nil error is \<open>None\<close>. \<open>errors.Join\<close> drops its nil arguments, returns nil when none is
  left, and wraps the others in the order given.
\<close>

datatype error = ContradictionErr Constraint Constraint | joinError "error list"

definition errors_Join :: "error option list \<Rightarrow> error option" where
  "errors_Join errs =
     (case List.map_filter id errs of [] \<Rightarrow> None | e # es \<Rightarrow> Some (joinError (e # es)))"

text \<open>
  What a caller recovers from the returned error: the pairs of all \<open>ContradictionErr\<close> values
  reached through \<open>Unwrap() []error\<close>, depth first, in order.
\<close>

fun contradictions :: "error \<Rightarrow> (Constraint \<times> Constraint) list" where
  "contradictions (ContradictionErr c1 c2) = [(c1, c2)]"
| "contradictions (joinError es) = concat (map contradictions es)"

definition reported :: "error option \<Rightarrow> (Constraint \<times> Constraint) list" where
  "reported err = (case err of None \<Rightarrow> [] | Some e \<Rightarrow> contradictions e)"

text \<open>
  The body of the inner loop, the inner loop over \<open>j = i + 1, ..., n - 1\<close> and the outer loop
  over \<open>i = 0, ..., n - 1\<close>. The outer \<open>option\<close> is the panic, the inner one Go's nil error.
\<close>

definition contradictsStep ::
  "Constraints \<Rightarrow> nat \<Rightarrow> nat \<Rightarrow> error option option \<Rightarrow> error option option" where
  "contradictsStep allConstraints i j acc =
     (case acc of
        None \<Rightarrow> None
      | Some err \<Rightarrow>
          (let c1 = allConstraints ! i; c2 = allConstraints ! j
           in case contradictEither c1 c2 of
                None \<Rightarrow> None
              | Some True \<Rightarrow> Some (errors_Join [err, Some (ContradictionErr c1 c2)])
              | Some False \<Rightarrow> Some err))"

definition Contradicts :: "Constraints \<Rightarrow> Constraints list \<Rightarrow> error option option" where
  "Contradicts c additional =
     (let allConstraints = fold (\<lambda>additionalSet acc. acc @ additionalSet) additional ([] @ c);
          n = length allConstraints
      in fold (\<lambda>i. fold (contradictsStep allConstraints i) [i + 1 ..< n]) [0 ..< n] (Some None))"

section \<open>Parsing and strict rendering (parser.go, version.go)\<close>

subsection \<open>Numbers of the standard library\<close>

text \<open>
  \<open>strconv.FormatUint(n, 10)\<close> writes the decimal digits of \<open>n\<close>, most significant first,
  with no leading zero (\<open>0\<close> itself is \<open>"0"\<close>).
\<close>

definition digit_char :: "nat \<Rightarrow> char" where
  "digit_char d = ''0123456789'' ! d"

function format_nat :: "nat \<Rightarrow> string" where
  "format_nat n =
     (if n < 10 then [digit_char n] else format_nat (n div 10) @ [digit_char (n mod 10)])"
  by pat_completeness auto
termination
  by (relation "measure id") auto

definition FormatUint :: "uint64 \<Rightarrow> string" where
  "FormatUint n = format_nat (unat n)"

definition is_digit :: "char \<Rightarrow> bool" where
  "is_digit c = (c \<in> set ''0123456789'')"

text \<open>The value \<open>c - '0'\<close> of a digit, as the \<open>uint64\<close> that is added.\<close>

definition digit_val :: "char \<Rightarrow> uint64" where
  "digit_val c = of_nat (of_char c - 48)"

text \<open>
  \<open>strconv.ParseUint(s, 10, 64)\<close>: the empty string and a byte that is not a digit are
  syntax errors; a value beyond \<open>2^64 - 1\<close> is a range error, found as the standard library
  finds it, in 64-bit arithmetic: before the multiplication by ten when \<open>n\<close> has reached the
  cutoff \<open>maxUint64/10 + 1\<close>, or after the addition of the digit when the sum has wrapped
  around. The bytes are read from left to right and the first error is returned.
\<close>

datatype NumError = ErrSyntax | ErrRange

definition maxUint64 :: uint64 where
  "maxUint64 = 18446744073709551615"

definition cutoff :: uint64 where
  "cutoff = 1844674407370955162"

fun parse_digits :: "string \<Rightarrow> uint64 \<Rightarrow> NumError + uint64" where
  "parse_digits [] n = Inr n"
| "parse_digits (c # cs) n =
     (if \<not> is_digit c then Inl ErrSyntax
      else if n \<ge> cutoff then Inl ErrRange
      else let n' = n * 10; n1 = n' + digit_val c
           in if n1 < n' \<or> n1 > maxUint64 then Inl ErrRange
              else parse_digits cs n1)"

definition ParseUint :: "string \<Rightarrow> NumError + uint64" where
  "ParseUint s = (if s = [] then Inl ErrSyntax else parse_digits s 0)"

subsection \<open>The two regular expressions\<close>

text \<open>
  A compiled \<open>*regexp.Regexp\<close>, as far as \<open>parseVersion\<close> uses it: \<open>FindStringSubmatch\<close>, which
  returns the whole match followed by the text of every group (empty for a group that did not
  take part), or nil, the empty list, when the text does not match; and \<open>SubexpNames\<close>, the
  names of the groups, empty for the whole match and for a group without a name.
\<close>

record Regexp =
  FindStringSubmatch :: "string \<Rightarrow> string list"
  SubexpNames :: "string list"

definition is_letter :: "char \<Rightarrow> bool" where
  "is_letter c = (c \<in> set ''abcdefghijklmnopqrstuvwxyzABCDEFGHIJKLMNOPQRSTUVWXYZ'')"

text \<open>The class \<open>[0-9a-zA-Z-]\<close>.\<close>

definition is_ident_char :: "char \<Rightarrow> bool" where
  "is_ident_char c = (is_digit c \<or> is_letter c \<or> c = CHR ''-'')"

text \<open>\<open>0|[1-9]\d*\<close>, for a whole piece of text.\<close>

definition numeric_ident :: "string \<Rightarrow> bool" where
  "numeric_ident s = (s = ''0'' \<or> (s \<noteq> [] \<and> hd s \<noteq> CHR ''0'' \<and> list_all is_digit s))"

text \<open>\<open>\d*[a-zA-Z-][0-9a-zA-Z-]*\<close>: identifier characters, one of them not a digit.\<close>

definition alnum_ident :: "string \<Rightarrow> bool" where
  "alnum_ident s = (list_all is_ident_char s \<and> \<not> list_all is_digit s)"

text \<open>\<open>[0-9a-zA-Z-]+\<close>, for a whole piece of text.\<close>

definition build_ident :: "string \<Rightarrow> bool" where
  "build_ident s = (s \<noteq> [] \<and> list_all is_ident_char s)"

text \<open>The pieces of a text between its dots: one more piece than there are dots.\<close>

fun split_dots :: "string \<Rightarrow> string list" where
  "split_dots [] = [[]]"
| "split_dots (c # cs) =
     (if c = CHR ''.'' then [] # split_dots cs
      else (case split_dots cs of [] \<Rightarrow> [[c]] | piece # pieces \<Rightarrow> (c # piece) # pieces))"

text \<open>
  The two groups \<open>prerelease\<close> and \<open>buildmetadata\<close> of \<open>semVerRegex\<close>, for a whole piece of
  text: identifiers separated by single dots.
\<close>

definition valid_prerelease :: "string \<Rightarrow> bool" where
  "valid_prerelease s = list_all (\<lambda>i. numeric_ident i \<or> alnum_ident i) (split_dots s)"

definition valid_buildmetadata :: "string \<Rightarrow> bool" where
  "valid_buildmetadata s = list_all build_ident (split_dots s)"

text \<open>
  \<open>semVerRegex\<close>, the strict one:

  \<^verbatim>\<open>^(?P<major>0|[1-9]\d*)\.(?P<minor>0|[1-9]\d*)\.(?P<patch>0|[1-9]\d*)\<close>
  \<^verbatim>\<open>(?:-(?P<prerelease>(?:0|[1-9]\d*|\d*[a-zA-Z-][0-9a-zA-Z-]*)\<close>
  \<^verbatim>\<open>(?:\.(?:0|[1-9]\d*|\d*[a-zA-Z-][0-9a-zA-Z-]*))*))?\<close>
  \<^verbatim>\<open>(?:\+(?P<buildmetadata>[0-9a-zA-Z-]+(?:\.[0-9a-zA-Z-]+)*))?$\<close>

  It is anchored at both ends and its grammar is unambiguous, so a match, when
  there is one, is found by reading from left to right: the digits of major up to the first
  dot, the digits of minor up to the second, the digits of patch; then, after a \<open>-\<close>, the
  pre-release up to the first \<open>+\<close> or the end (its identifiers hold no \<open>+\<close>); then, after a
  \<open>+\<close>, the build metadata up to the end. A piece that is not of the form its group asks
  for, or a text that goes on in any other way, means no match. \<open>semVer_tail\<close> reads what
  follows patch; what it finds after a pre-release, if anything, starts with the \<open>+\<close> at which
  the pre-release stopped.
\<close>

definition semVer_tail :: "string \<Rightarrow> (string \<times> string) option" where
  "semVer_tail r =
     (case r of
        [] \<Rightarrow> Some ([], [])
      | c # t \<Rightarrow>
          if c = CHR ''-'' then
            (let pre = takeWhile (\<lambda>c. c \<noteq> CHR ''+'') t;
                 r' = dropWhile (\<lambda>c. c \<noteq> CHR ''+'') t
             in if \<not> valid_prerelease pre then None
                else case r' of
                  [] \<Rightarrow> Some (pre, [])
                | sep # build \<Rightarrow>
                    if valid_buildmetadata build then Some (pre, build) else None)
          else if c = CHR ''+'' then
            (if valid_buildmetadata t then Some ([], t) else None)
          else None)"

definition semVer_find :: "string \<Rightarrow> string list" where
  "semVer_find s =
     (let major = takeWhile is_digit s; r1 = dropWhile is_digit s
      in if \<not> numeric_ident major then []
         else case r1 of
           [] \<Rightarrow> []
         | d1 # s2 \<Rightarrow>
             if d1 \<noteq> CHR ''.'' then []
             else let minor = takeWhile is_digit s2; r2 = dropWhile is_digit s2
                  in if \<not> numeric_ident minor then []
                     else case r2 of
                       [] \<Rightarrow> []
                     | d2 # s3 \<Rightarrow>
                         if d2 \<noteq> CHR ''.'' then []
                         else let patch = takeWhile is_digit s3; r3 = dropWhile is_digit s3
                              in if \<not> numeric_ident patch then []
                                 else case semVer_tail r3 of
                                   None \<Rightarrow> []
                                 | Some (pre, build) \<Rightarrow>
                                     [s, major, minor, patch, pre, build])"

definition semVerRegex :: Regexp where
  "semVerRegex =
     \<lparr>FindStringSubmatch = semVer_find,
      SubexpNames = [[], ''major'', ''minor'', ''patch'', ''prerelease'', ''buildmetadata'']\<rparr>"

text \<open>
  \<open>versionRegex\<close>, the lenient one:

  \<^verbatim>\<open>^\D*?(?P<major>\d+)(\.(?P<minor>\d+))?(\.(?P<patch>\d+))?\<close>
  \<^verbatim>\<open>(?:-(?P<prerelease>[^+\n]*))?(\+(?P<buildmetadata>.*))?[^\n]*$\<close>

  Go's matcher prefers, at every choice, the first
  alternative: the lazy \<open>\D*?\<close> stops as early as it can, a greedy repetition takes as much as
  it can and an optional group is entered when it can be. \<open>\D\<close> matches no digit, so major
  starts at the first digit of the text. From there on nothing in the expression matches a
  newline and \<open>$\<close> is the end of the text, so there is no match when a newline follows the
  first digit; when none does, the final \<open>[^\n]*\<close> takes whatever is left, and the preferred
  choice succeeds at every step. Each of the two groups around minor and patch is tried where
  the one before it stopped, on its own: a dot and at least one digit.
\<close>

definition dot_digits :: "string \<Rightarrow> string \<times> string \<times> string" where
  "dot_digits r =
     (case r of
        [] \<Rightarrow> ([], [], r)
      | c # t \<Rightarrow>
          if c = CHR ''.'' \<and> takeWhile is_digit t \<noteq> []
          then (c # takeWhile is_digit t, takeWhile is_digit t, dropWhile is_digit t)
          else ([], [], r))"

definition dash_prerelease :: "string \<Rightarrow> string \<times> string" where
  "dash_prerelease r =
     (case r of
        [] \<Rightarrow> ([], r)
      | c # t \<Rightarrow>
          if c = CHR ''-''
          then (takeWhile (\<lambda>c. c \<noteq> CHR ''+'') t, dropWhile (\<lambda>c. c \<noteq> CHR ''+'') t)
          else ([], r))"

definition plus_build :: "string \<Rightarrow> string \<times> string \<times> string" where
  "plus_build r =
     (case r of
        [] \<Rightarrow> ([], [], r)
      | c # t \<Rightarrow> if c = CHR ''+'' then (c # t, t, []) else ([], [], r))"

definition version_find :: "string \<Rightarrow> string list" where
  "version_find s =
     (let s1 = dropWhile (\<lambda>c. \<not> is_digit c) s
      in if s1 = [] then []
         else if CHR 0x0A \<in> set s1 then []
         else let major = takeWhile is_digit s1;
                  r1 = dropWhile is_digit s1;
                  (dot_minor, minor, r2) = dot_digits r1;
                  (dot_patch, patch, r3) = dot_digits r2;
                  (pre, r4) = dash_prerelease r3;
                  (plus_bm, build, r5) = plus_build r4
              in [s, major, dot_minor, minor, dot_patch, patch, pre, plus_bm, build])"

definition versionRegex :: Regexp where
  "versionRegex =
     \<lparr>FindStringSubmatch = version_find,
      SubexpNames = [[], ''major'', [], ''minor'', [], ''patch'', ''prerelease'', [],
                     ''buildmetadata'']\<rparr>"

subsection \<open>parseVersion and its two entry points\<close>

datatype parse_error =
    RegexMismatch string
  | MajorError string NumError
  | MinorError string NumError
  | PatchError string NumError

text \<open>
  The loop over the submatches, each with the name of its group. The version built so far is
  passed along; the first error ends the loop.
\<close>

fun parseGroups :: "string list \<Rightarrow> string list \<Rightarrow> Version \<Rightarrow> parse_error + Version" where
  "parseGroups (name # names) (subMatch # matches) ver =
     (if name = ''major'' then
        (case ParseUint subMatch of
           Inl err \<Rightarrow> Inl (MajorError subMatch err)
         | Inr ma \<Rightarrow> parseGroups names matches (ver\<lparr>major := ma\<rparr>))
      else if name = ''minor'' then
        (if subMatch = [] then parseGroups names matches ver
         else case ParseUint subMatch of
                Inl err \<Rightarrow> Inl (MinorError subMatch err)
              | Inr mi \<Rightarrow> parseGroups names matches (ver\<lparr>minor := Some mi\<rparr>))
      else if name = ''patch'' then
        (if subMatch = [] then parseGroups names matches ver
         else case ParseUint subMatch of
                Inl err \<Rightarrow> Inl (PatchError subMatch err)
              | Inr pa \<Rightarrow> parseGroups names matches (ver\<lparr>patch := Some pa\<rparr>))
      else if name = ''prerelease'' then
        parseGroups names matches (ver\<lparr>preRelease := subMatch\<rparr>)
      else if name = ''buildmetadata'' then
        parseGroups names matches (ver\<lparr>buildMetadata := subMatch\<rparr>)
      else parseGroups names matches ver)"
| "parseGroups names [] ver = Inr ver"
| "parseGroups [] (subMatch # matches) ver = Inr ver"

text \<open>
  \<open>parseVersion\<close> panics when there are more submatches than names: the result \<open>None\<close>. (The
  last equation of \<open>parseGroups\<close> is therefore never reached.)
\<close>

definition parseVersion :: "Regexp \<Rightarrow> string \<Rightarrow> (parse_error + Version) option" where
  "parseVersion r versionString =
     (let matches = FindStringSubmatch r versionString
      in if length matches = 0 then Some (Inl (RegexMismatch versionString))
         else let subExpNames = SubexpNames r
              in if length matches > length subExpNames then None
                 else Some (parseGroups subExpNames matches zeroVersion))"

definition ParseVersion :: "string \<Rightarrow> (parse_error + Version) option" where
  "ParseVersion s = parseVersion versionRegex s"

definition ParseSemVer :: "string \<Rightarrow> (parse_error + Version) option" where
  "ParseSemVer s = parseVersion semVerRegex s"

subsection \<open>StrictString\<close>

datatype strict_error = PreReleaseInvalid parse_error | BuildMetadataInvalid parse_error

definition StrictString :: "Version \<Rightarrow> (strict_error + string) option" where
  "StrictString v =
     (let versionStr = FormatUint (major v);
          versionStr = (case minor v of
                          Some m \<Rightarrow> versionStr @ ''.'' @ FormatUint m
                        | None \<Rightarrow> versionStr @ ''.0'');
          versionStr = (case patch v of
                          Some p \<Rightarrow> versionStr @ ''.'' @ FormatUint p
                        | None \<Rightarrow> versionStr @ ''.0'');
          withBuild = (\<lambda>versionStr.
            if buildMetadata v \<noteq> [] then
              (case ParseSemVer (versionStr @ ''+'' @ buildMetadata v) of
                 None \<Rightarrow> None
               | Some (Inl err) \<Rightarrow> Some (Inl (BuildMetadataInvalid err))
               | Some (Inr ok) \<Rightarrow> Some (Inr (versionStr @ ''+'' @ buildMetadata v)))
            else Some (Inr versionStr))
      in if preRelease v \<noteq> [] then
           (case ParseSemVer (versionStr @ ''-'' @ preRelease v) of
              None \<Rightarrow> None
            | Some (Inl err) \<Rightarrow> Some (Inl (PreReleaseInvalid err))
            | Some (Inr ok) \<Rightarrow> withBuild (versionStr @ ''-'' @ preRelease v))
         else withBuild versionStr)"

section \<open>The pointer-level model of version.go\<close>

text \<open>
  In the source \<open>minor\<close> and \<open>patch\<close> are pointers to \<open>uint64\<close> cells. Here the cells live in
  a store: the list of all cells allocated so far, a cell's address being its index. A pointer
  is nil (\<open>None\<close>) or the address of a cell. \<open>new(uint64)\<close> and the address of a local variable
  both allocate a cell at the end of the store. A statement is a function from the store to
  the result and the new store, or to \<open>None\<close> when it panics: the dereference of a nil pointer
  (or of an address that was never allocated, which a Go program cannot hold).
\<close>

type_synonym addr = nat
type_synonym store = "uint64 list"
type_synonym 'a stmt = "store \<Rightarrow> ('a \<times> store) option"

record Version_p =
  major_p :: uint64
  minor_p :: "addr option"
  patch_p :: "addr option"
  preRelease_p :: string
  buildMetadata_p :: string

definition ret :: "'a \<Rightarrow> 'a stmt" where
  "ret x h = Some (x, h)"

definition and_then :: "'a stmt \<Rightarrow> ('a \<Rightarrow> 'b stmt) \<Rightarrow> 'b stmt" where
  "and_then m f h = (case m h of None \<Rightarrow> None | Some (x, h') \<Rightarrow> f x h')"

definition new_cell :: "uint64 \<Rightarrow> addr option stmt" where
  "new_cell x h = Some (Some (length h), h @ [x])"

definition deref :: "addr option \<Rightarrow> uint64 stmt" where
  "deref p h =
     (case p of
        None \<Rightarrow> None
      | Some a \<Rightarrow> if a < length h then Some (h ! a, h) else None)"

definition assign :: "addr option \<Rightarrow> uint64 \<Rightarrow> unit stmt" where
  "assign p x h =
     (case p of
        None \<Rightarrow> None
      | Some a \<Rightarrow> if a < length h then Some ((), h[a := x]) else None)"

definition NewVersion_p :: "uint64 \<Rightarrow> uint64 \<Rightarrow> uint64 \<Rightarrow> Version_p stmt" where
  "NewVersion_p ma mi pa =
     and_then (new_cell mi) (\<lambda>minor_addr.
     and_then (new_cell pa) (\<lambda>patch_addr.
     ret \<lparr>major_p = ma, minor_p = minor_addr, patch_p = patch_addr,
          preRelease_p = [], buildMetadata_p = []\<rparr>))"

text \<open>\<open>clone\<close>: a fresh cell for each component that is present, holding its current value.\<close>

definition clone_cell :: "addr option \<Rightarrow> addr option stmt" where
  "clone_cell p =
     (if p \<noteq> None then and_then (deref p) (\<lambda>val. new_cell val) else ret None)"

definition clone_p :: "Version_p \<Rightarrow> Version_p stmt" where
  "clone_p v =
     and_then (clone_cell (minor_p v)) (\<lambda>minor_addr.
     and_then (clone_cell (patch_p v)) (\<lambda>patch_addr.
     ret \<lparr>major_p = major_p v, minor_p = minor_addr, patch_p = patch_addr,
          preRelease_p = preRelease_p v, buildMetadata_p = buildMetadata_p v\<rparr>))"

definition SetPreRelease_p :: "Version_p \<Rightarrow> string \<Rightarrow> Version_p stmt" where
  "SetPreRelease_p v pre = and_then (clone_p v) (\<lambda>ver. ret (ver\<lparr>preRelease_p := pre\<rparr>))"

definition SetBuildMetadata_p :: "Version_p \<Rightarrow> string \<Rightarrow> Version_p stmt" where
  "SetBuildMetadata_p v bm = and_then (clone_p v) (\<lambda>ver. ret (ver\<lparr>buildMetadata_p := bm\<rparr>))"

definition Increment_p :: "Version_p \<Rightarrow> Version_p stmt" where
  "Increment_p v =
     and_then (clone_p v) (\<lambda>cloned.
     let newVersion = cloned\<lparr>preRelease_p := [], buildMetadata_p := []\<rparr>
     in if patch_p v \<noteq> None then
          and_then (new_cell 0) (\<lambda>a.
          and_then (deref (patch_p v)) (\<lambda>p.
          and_then (assign a (p + 1)) (\<lambda>u.
          ret (newVersion\<lparr>patch_p := a\<rparr>))))
        else if minor_p v \<noteq> None then
          and_then (new_cell 0) (\<lambda>a.
          and_then (deref (minor_p v)) (\<lambda>m.
          and_then (assign a (m + 1)) (\<lambda>u.
          ret (newVersion\<lparr>minor_p := a\<rparr>))))
        else ret (newVersion\<lparr>major_p := major_p newVersion + 1\<rparr>))"

definition IncrementMajor_p :: "Version_p \<Rightarrow> Version_p stmt" where
  "IncrementMajor_p v =
     and_then (new_cell 0) (\<lambda>minor_addr.
     and_then (new_cell 0) (\<lambda>patch_addr.
     ret \<lparr>major_p = major_p v + 1, minor_p = minor_addr, patch_p = patch_addr,
          preRelease_p = [], buildMetadata_p = []\<rparr>))"

definition IncrementMinor_p :: "Version_p \<Rightarrow> Version_p stmt" where
  "IncrementMinor_p v =
     and_then (clone_p v) (\<lambda>cloned.
     and_then (new_cell 0) (\<lambda>patch_addr.
     let newVersion = cloned\<lparr>preRelease_p := [], buildMetadata_p := [], patch_p := patch_addr\<rparr>
     in and_then (if minor_p newVersion = None
                  then and_then (new_cell 0) (\<lambda>a. ret (newVersion\<lparr>minor_p := a\<rparr>))
                  else ret newVersion) (\<lambda>newVersion.
        and_then (deref (minor_p newVersion)) (\<lambda>m.
        and_then (assign (minor_p newVersion) (m + 1)) (\<lambda>u.
        ret newVersion)))))"

definition IncrementPatch_p :: "Version_p \<Rightarrow> Version_p stmt" where
  "IncrementPatch_p v =
     and_then (clone_p v) (\<lambda>cloned.
     let newVersion = cloned\<lparr>preRelease_p := [], buildMetadata_p := []\<rparr>
     in and_then (if minor_p newVersion = None
                  then and_then (new_cell 0) (\<lambda>a. ret (newVersion\<lparr>minor_p := a\<rparr>))
                  else ret newVersion) (\<lambda>newVersion.
        and_then (if patch_p newVersion = None
                  then and_then (new_cell 0) (\<lambda>a. ret (newVersion\<lparr>patch_p := a\<rparr>))
                  else ret newVersion) (\<lambda>newVersion.
        and_then (deref (patch_p newVersion)) (\<lambda>p.
        and_then (assign (patch_p newVersion) (p + 1)) (\<lambda>u.
        ret newVersion)))))"

text \<open>
  In the first branch \<open>*newVersion.minor++\<close> dereferences the clone's minor pointer, which is
  nil when the original's is: \<open>deref\<close> then yields \<open>None\<close>, the panic.
\<close>

definition IncrementPessimistic_p :: "Version_p \<Rightarrow> Version_p stmt" where
  "IncrementPessimistic_p v =
     and_then (clone_p v) (\<lambda>cloned.
     let newVersion = cloned\<lparr>preRelease_p := [], buildMetadata_p := []\<rparr>
     in if patch_p newVersion \<noteq> None then
          and_then (assign (patch_p newVersion) 0) (\<lambda>u.
          and_then (deref (minor_p newVersion)) (\<lambda>m.
          and_then (assign (minor_p newVersion) (m + 1)) (\<lambda>u.
          ret newVersion)))
        else if minor_p newVersion \<noteq> None then
          and_then (new_cell 0) (\<lambda>a.
          ret (newVersion\<lparr>minor_p := a, major_p := major_p newVersion + 1\<rparr>))
        else ret (newVersion\<lparr>major_p := major_p newVersion + 1\<rparr>))"

text \<open>
  What the accessors show of a version in a store: the value-level \<open>Version\<close>. The pointers of
  a version are allocated when they are addresses of the store, and its cells are the
  addresses it points to.
\<close>

definition observe :: "store \<Rightarrow> Version_p \<Rightarrow> Version" where
  "observe h v =
     \<lparr>major = major_p v,
      minor = map_option (\<lambda>a. h ! a) (minor_p v),
      patch = map_option (\<lambda>a. h ! a) (patch_p v),
      preRelease = preRelease_p v,
      buildMetadata = buildMetadata_p v\<rparr>"

definition cells :: "Version_p \<Rightarrow> addr set" where
  "cells v = set_option (minor_p v) \<union> set_option (patch_p v)"

definition allocated :: "store \<Rightarrow> Version_p \<Rightarrow> bool" where
  "allocated h v = (\<forall>a \<in> cells v. a < length h)"

text \<open>
  A statement run from store \<open>h\<close> on version \<open>v\<close> returns a new, independent version when it
  does not panic, when no cell that existed before has changed (so \<open>v\<close>, and every other
  version of \<open>h\<close>, shows what it showed), and when the cells of the returned version are
  allocated and all new: they are cells of no version that existed before, \<open>v\<close> included.
\<close>

definition returns_fresh :: "store \<Rightarrow> Version_p \<Rightarrow> (Version_p \<times> store) option \<Rightarrow> bool" where
  "returns_fresh h v r =
     (case r of
        None \<Rightarrow> False
      | Some (w, h') \<Rightarrow>
          take (length h) h' = h
          \<and> observe h' v = observe h v
          \<and> allocated h' w
          \<and> (\<forall>a \<in> cells w. length h \<le> a)
          \<and> cells w \<inter> cells v = {})"

text \<open>The value a statement returns, as the accessors show it in the store it leaves.\<close>

definition observed_result :: "(Version_p \<times> store) option \<Rightarrow> Version option" where
  "observed_result r = (case r of None \<Rightarrow> None | Some (w, h') \<Rightarrow> Some (observe h' w))"

section \<open>Vocabulary of the statements\<close>

text \<open>
  The versions a caller outside the package can hold (the fields of \<open>Version\<close> are not
  exported): the zero value, which is also what the parsers return beside an error, the results
  of the two constructors and of the two version parsers, and whatever the setters and the
  increments return on such a version.
\<close>

inductive obtainable :: "Version \<Rightarrow> bool" where
  zero: "obtainable zeroVersion"
| new: "obtainable (NewVersion ma mi pa)"
| new_pre: "obtainable (NewPreReleaseVersion ma mi pa pre)"
| parse: "ParseVersion s = Some (Inr v) \<Longrightarrow> obtainable v"
| parse_strict: "ParseSemVer s = Some (Inr v) \<Longrightarrow> obtainable v"
| set_pre: "obtainable v \<Longrightarrow> obtainable (SetPreRelease v pre)"
| set_build: "obtainable v \<Longrightarrow> obtainable (SetBuildMetadata v bm)"
| inc: "obtainable v \<Longrightarrow> obtainable (Increment v)"
| inc_major: "obtainable v \<Longrightarrow> obtainable (IncrementMajor v)"
| inc_minor: "obtainable v \<Longrightarrow> obtainable (IncrementMinor v)"
| inc_patch: "obtainable v \<Longrightarrow> obtainable (IncrementPatch v)"
| inc_pessimistic: "obtainable v \<Longrightarrow> IncrementPessimistic v = Some w \<Longrightarrow> obtainable w"

text \<open>
  Vocabulary for the statements about \<open>Contradicts\<close>: the constraints on which no call of
  \<open>IncrementPessimistic\<close> can panic; the index pairs \<open>(i, j)\<close> with \<open>i < j < n\<close> in the order of
  the two loops; and the pairs \<open>(xs[i], xs[j])\<close> of a list at those indices.
\<close>

definition constraints_ok :: "Constraints \<Rightarrow> bool" where
  "constraints_ok cs = list_all (\<lambda>c. patch_needs_minor (version c)) cs"

definition index_pairs :: "nat \<Rightarrow> (nat \<times> nat) list" where
  "index_pairs n = concat (map (\<lambda>i. map (\<lambda>j. (i, j)) [i + 1 ..< n]) [0 ..< n])"

definition all_pairs :: "'a list \<Rightarrow> ('a \<times> 'a) list" where
  "all_pairs xs =
     concat (map (\<lambda>i. map (\<lambda>j. (xs ! i, xs ! j)) [i + 1 ..< length xs]) [0 ..< length xs])"

text \<open>The pairs for which the loop body of \<open>Contradicts\<close> joins a \<open>ContradictionErr\<close>.\<close>

definition marked :: "Constraint \<times> Constraint \<Rightarrow> bool" where
  "marked p = (contradictEither (fst p) (snd p) = Some True)"

section \<open>Properties of the order and of single constraints\<close>

lemmas operator_defs = EQ_def NE_def GT_def GE_def LT_def LE_def GEPessimistic_def

lemma str_less_irrefl: "\<not> str_less s s"
  by (induction s) simp_all

lemma str_less_asym: "str_less s t \<Longrightarrow> \<not> str_less t s"
  by (induction s t rule: str_less.induct) (simp_all split: if_splits)

lemma Less_asym: "Less a b \<Longrightarrow> \<not> Less b a"
  unfolding Less_def
  by (auto split: if_splits dest: str_less_asym)

lemma Less_irrefl: "\<not> Less a a"
  using Less_asym by blast

lemma Greater_iff_Less: "Greater a b = Less b a"
  unfolding Greater_def using Less_asym by blast

lemma IncrementPessimistic_total:
  "patch_needs_minor v \<Longrightarrow> \<exists>w. IncrementPessimistic v = Some w"
  by (auto simp: IncrementPessimistic_def patch_needs_minor_def clone_def Let_def split: option.splits)

text \<open>
  Claim C7. For all versions \<open>a\<close> and \<open>b\<close> exactly one of \<open>Less a b\<close>, \<open>Equal a b\<close> and
  \<open>Greater a b\<close> holds: at least one does and no two do together. \<open>Equal\<close> and \<open>Greater\<close> are
  the two combinations of \<open>Less\<close> that the source writes, and \<open>Less\<close> never holds in both
  directions.
\<close>

theorem version_trichotomy:
  "(Less a b \<or> Equal a b \<or> Greater a b)
   \<and> \<not> (Less a b \<and> Equal a b)
   \<and> \<not> (Less a b \<and> Greater a b)
   \<and> \<not> (Equal a b \<and> Greater a b)
   \<and> Equal a b = (\<not> Less a b \<and> \<not> Less b a)
   \<and> Greater a b = (Less b a \<and> \<not> Less a b)
   \<and> \<not> (Less a b \<and> Less b a)"
  using Less_asym [of a b] unfolding Equal_def Greater_def by blast

text \<open>
  Claim C1. For a constraint \<open>c\<close> with operator \<open>~>\<close>, \<open>Satisfies v c\<close> returns true exactly
  when \<open>v\<close> is greater than or equal to the version of \<open>c\<close> and less than its
  \<open>IncrementPessimistic\<close>, which then has returned. When the version of \<open>c\<close> has a minor
  whenever it has a patch, \<open>Satisfies\<close> returns, and returns that conjunction. Version 1.8.999
  satisfies \<open>~> 1.8.0\<close> and version 1.2.3 does not satisfy \<open>~> 1.3.0\<close>.
\<close>

theorem satisfies_pessimistic:
  "(operator c = GEPessimistic \<longrightarrow>
      (Satisfies v c = Some True)
        = (GreaterEqual v (version c)
           \<and> (\<exists>w. IncrementPessimistic (version c) = Some w \<and> Less v w)))
   \<and> (operator c = GEPessimistic \<and> patch_needs_minor (version c) \<longrightarrow>
        (\<exists>w. IncrementPessimistic (version c) = Some w
           \<and> Satisfies v c = Some (GreaterEqual v (version c) \<and> Less v w)))
   \<and> Satisfies (NewVersion 1 8 999) (NewConstraint GEPessimistic (NewVersion 1 8 0)) = Some True
   \<and> Satisfies (NewVersion 1 2 3) (NewConstraint GEPessimistic (NewVersion 1 3 0)) = Some False"
proof (intro conjI impI)
  assume "operator c = GEPessimistic"
  then show "(Satisfies v c = Some True)
        = (GreaterEqual v (version c)
           \<and> (\<exists>w. IncrementPessimistic (version c) = Some w \<and> Less v w))"
    by (auto simp: Satisfies_def operator_defs split: option.splits)
next
  assume h: "operator c = GEPessimistic \<and> patch_needs_minor (version c)"
  then obtain w where w: "IncrementPessimistic (version c) = Some w"
    using IncrementPessimistic_total by blast
  with h have "Satisfies v c = Some (GreaterEqual v (version c) \<and> Less v w)"
    by (simp add: Satisfies_def operator_defs)
  with w show "\<exists>w. IncrementPessimistic (version c) = Some w
           \<and> Satisfies v c = Some (GreaterEqual v (version c) \<and> Less v w)"
    by blast
next
  show "Satisfies (NewVersion 1 8 999) (NewConstraint GEPessimistic (NewVersion 1 8 0)) = Some True"
    by code_simp
next
  show "Satisfies (NewVersion 1 2 3) (NewConstraint GEPessimistic (NewVersion 1 3 0)) = Some False"
    by code_simp
qed

text \<open>An instance: 1.8.999 and \<open>~> 1.8.0\<close>, where the bound is 1.9.0.\<close>

theorem satisfies_pessimistic_witness:
  "operator (NewConstraint GEPessimistic (NewVersion 1 8 0)) = GEPessimistic
   \<and> GreaterEqual (NewVersion 1 8 999) (version (NewConstraint GEPessimistic (NewVersion 1 8 0)))
   \<and> IncrementPessimistic (version (NewConstraint GEPessimistic (NewVersion 1 8 0)))
       = Some (NewVersion 1 9 0)
   \<and> Less (NewVersion 1 8 999) (NewVersion 1 9 0)
   \<and> Satisfies (NewVersion 1 8 999) (NewConstraint GEPessimistic (NewVersion 1 8 0)) = Some True"
proof -
  let ?c = "NewConstraint GEPessimistic (NewVersion 1 8 0)"
  let ?v = "NewVersion 1 8 999"
  have op: "operator ?c = GEPessimistic"
    by (simp add: NewConstraint_def)
  have ge: "GreaterEqual ?v (version ?c)"
    by code_simp
  have inc: "IncrementPessimistic (version ?c) = Some (NewVersion 1 9 0)"
    by code_simp
  have lt: "Less ?v (NewVersion 1 9 0)"
    by code_simp
  from satisfies_pessimistic [of ?c ?v] op
  have "(Satisfies ?v ?c = Some True)
          = (GreaterEqual ?v (version ?c)
             \<and> (\<exists>w. IncrementPessimistic (version ?c) = Some w \<and> Less ?v w))"
    by blast
  with ge inc lt have "Satisfies ?v ?c = Some True"
    by blast
  with op ge inc lt show ?thesis
    by blast
qed

text \<open>
  Claim C5. For a \<open>>=\<close> constraint \<open>g\<close> and a \<open>~>\<close> constraint \<open>p\<close>, \<open>Overlaps\<close> returns, in
  either argument order, whether the version of \<open>g\<close> is greater than or equal to the version of
  \<open>p\<close> and less than \<open>Increment\<close> of it, the plain increment of the rightmost component.
\<close>

theorem overlaps_ge_pessimistic:
  "operator g = GE \<Longrightarrow> operator p = GEPessimistic \<Longrightarrow>
     Overlaps g p
       = Some (GreaterEqual (version g) (version p) \<and> Less (version g) (Increment (version p)))
     \<and> Overlaps p g
       = Some (GreaterEqual (version g) (version p) \<and> Less (version g) (Increment (version p)))"
  by (simp add: Overlaps_def operator_defs)

text \<open>
  At \<open>>= 1.2.5\<close> and \<open>~> 1.2.3\<close> the two increments differ: 1.2.5 is below the pessimistic bound
  1.3.0 and not below the plain bound 1.2.4, and \<open>Overlaps\<close> returns false.
\<close>

theorem overlaps_ge_pessimistic_witness:
  "operator (NewConstraint GE (NewVersion 1 2 5)) = GE
   \<and> operator (NewConstraint GEPessimistic (NewVersion 1 2 3)) = GEPessimistic
   \<and> Increment (NewVersion 1 2 3) = NewVersion 1 2 4
   \<and> IncrementPessimistic (NewVersion 1 2 3) = Some (NewVersion 1 3 0)
   \<and> Less (NewVersion 1 2 5) (NewVersion 1 3 0)
   \<and> Overlaps (NewConstraint GE (NewVersion 1 2 5))
               (NewConstraint GEPessimistic (NewVersion 1 2 3)) = Some False
   \<and> Overlaps (NewConstraint GEPessimistic (NewVersion 1 2 3))
               (NewConstraint GE (NewVersion 1 2 5)) = Some False"
proof -
  let ?g = "NewConstraint GE (NewVersion 1 2 5)"
  let ?p = "NewConstraint GEPessimistic (NewVersion 1 2 3)"
  have g: "operator ?g = GE" and p: "operator ?p = GEPessimistic"
    by (simp_all add: NewConstraint_def)
  have inc: "Increment (NewVersion 1 2 3) = NewVersion 1 2 4"
    by code_simp
  have incp: "IncrementPessimistic (NewVersion 1 2 3) = Some (NewVersion 1 3 0)"
    by code_simp
  have lt: "Less (NewVersion 1 2 5) (NewVersion 1 3 0)"
    by code_simp
  have rhs: "(GreaterEqual (version ?g) (version ?p)
              \<and> Less (version ?g) (Increment (version ?p))) = False"
    by code_simp
  from overlaps_ge_pessimistic [OF g p] rhs
  have "Overlaps ?g ?p = Some False" "Overlaps ?p ?g = Some False"
    by simp_all
  with g p inc incp lt show ?thesis
    by blast
qed

text \<open>
  Claim C4, as the code has it. For a constraint \<open>c1\<close> with operator \<open>>\<close> and any constraint
  \<open>c2\<close>, \<open>Overlaps c1 c2\<close> returns whether the version of \<open>c1\<close> is less than or equal to the
  version of \<open>c2\<close>: the receiver's version is the smaller one, not the argument's.
\<close>

theorem overlaps_gt:
  "operator c1 = GT \<Longrightarrow> Overlaps c1 c2 = Some (LessEqual (version c1) (version c2))"
  by (simp add: Overlaps_def operator_defs)

text \<open>Two cases of the test suite: \<open>> 2.0.0\<close> against \<open>> 1.9.9\<close>, and \<open>> 1.9.9\<close> against \<open>< 2.0.0\<close>.\<close>

theorem overlaps_gt_witness:
  "operator (NewConstraint GT (NewVersion 2 0 0)) = GT
   \<and> \<not> LessEqual (NewVersion 2 0 0) (NewVersion 1 9 9)
   \<and> Overlaps (NewConstraint GT (NewVersion 2 0 0)) (NewConstraint GT (NewVersion 1 9 9))
       = Some False
   \<and> Overlaps (NewConstraint GT (NewVersion 1 9 9)) (NewConstraint LT (NewVersion 2 0 0))
       = Some True"
proof -
  let ?a = "NewConstraint GT (NewVersion 2 0 0)"
  let ?b = "NewConstraint GT (NewVersion 1 9 9)"
  let ?c = "NewConstraint LT (NewVersion 2 0 0)"
  have a: "operator ?a = GT" and b: "operator ?b = GT"
    by (simp_all add: NewConstraint_def)
  have le1: "LessEqual (version ?a) (version ?b) = False"
    by code_simp
  have le2: "LessEqual (version ?b) (version ?c) = True"
    by code_simp
  have le3: "\<not> LessEqual (NewVersion 2 0 0) (NewVersion 1 9 9)"
    by code_simp
  from overlaps_gt [OF a, of ?b] le1 have "Overlaps ?a ?b = Some False"
    by simp
  moreover from overlaps_gt [OF b, of ?c] le2 have "Overlaps ?b ?c = Some True"
    by simp
  ultimately show ?thesis
    using a le3 by blast
qed

text \<open>
  The rule as the specification words it (the argument's version less than or equal to the
  receiver's) fails at \<open>> 2.0.0\<close> and \<open>> 1.9.9\<close>: 1.9.9 is below 2.0.0 and the result is false.
\<close>

theorem overlaps_gt_counterexample:
  "LessEqual (version (NewConstraint GT (NewVersion 1 9 9)))
             (version (NewConstraint GT (NewVersion 2 0 0)))
   \<and> Overlaps (NewConstraint GT (NewVersion 2 0 0)) (NewConstraint GT (NewVersion 1 9 9))
       = Some False"
  by code_simp

section \<open>The loops of Contradicts\<close>

lemma Satisfies_total:
  "patch_needs_minor (version c) \<Longrightarrow> \<exists>b. Satisfies v c = Some b"
  using IncrementPessimistic_total [of "version c"]
  by (auto simp: Satisfies_def)

lemma Overlaps_total:
  "patch_needs_minor (version c2) \<Longrightarrow> \<exists>b. Overlaps c c2 = Some b"
  using Satisfies_total [of c2 "version c"]
  by (auto simp: Overlaps_def)

lemma checkContradict_total:
  "patch_needs_minor (version c1) \<Longrightarrow> patch_needs_minor (version c2)
     \<Longrightarrow> \<exists>b. checkContradict c1 c2 = Some b"
  using Satisfies_total [of c2 "version c1"] Satisfies_total [of c1 "version c2"]
    Overlaps_total [of c2 c1]
  by (auto simp: checkContradict_def)

lemma contradictEither_total:
  assumes "patch_needs_minor (version c1)" "patch_needs_minor (version c2)"
  shows "\<exists>b. contradictEither c1 c2 = Some b"
proof -
  from assms obtain b where b: "checkContradict c1 c2 = Some b"
    using checkContradict_total by blast
  from assms obtain b' where b': "checkContradict c2 c1 = Some b'"
    using checkContradict_total by blast
  show ?thesis
    using b b' by (cases b) (auto simp add: contradictEither_def)
qed

lemma contradictEither_True_iff:
  assumes "patch_needs_minor (version c1)" "patch_needs_minor (version c2)"
  shows "(contradictEither c1 c2 = Some True)
           = (checkContradict c1 c2 = Some True \<or> checkContradict c2 c1 = Some True)"
proof -
  from assms obtain b where b: "checkContradict c1 c2 = Some b"
    using checkContradict_total by blast
  from assms obtain b' where b': "checkContradict c2 c1 = Some b'"
    using checkContradict_total by blast
  show ?thesis
    using b b' by (cases b) (auto simp add: contradictEither_def)
qed

lemma reported_Join:
  "reported (errors_Join [err, Some (ContradictionErr c1 c2)]) = reported err @ [(c1, c2)]"
  by (cases err) (simp_all add: errors_Join_def reported_def List.map_filter_def)

lemma Join_not_None: "errors_Join [err, Some e] \<noteq> None"
  by (cases err) (simp_all add: errors_Join_def List.map_filter_def)

lemma inner_loop:
  assumes "\<forall>j \<in> set js. contradictEither (cs ! i) (cs ! j) \<noteq> None"
    and "err \<noteq> None \<longrightarrow> reported err \<noteq> []"
  shows "\<exists>r. fold (contradictsStep cs i) js (Some err) = Some r
              \<and> reported r = reported err @ filter marked (map (\<lambda>j. (cs ! i, cs ! j)) js)
              \<and> (r \<noteq> None \<longrightarrow> reported r \<noteq> [])"
  using assms
proof (induction js arbitrary: err)
  case Nil
  then show ?case by simp
next
  case (Cons j js)
  from Cons.prems(1) obtain b where b: "contradictEither (cs ! i) (cs ! j) = Some b"
    by auto
  have rest: "\<forall>j \<in> set js. contradictEither (cs ! i) (cs ! j) \<noteq> None"
    using Cons.prems(1) by simp
  show ?case
  proof (cases b)
    case True
    let ?e = "errors_Join [err, Some (ContradictionErr (cs ! i) (cs ! j))]"
    have step: "contradictsStep cs i j (Some err) = Some ?e"
      using b True by (simp add: contradictsStep_def)
    have inv: "?e \<noteq> None \<longrightarrow> reported ?e \<noteq> []"
      by (simp add: reported_Join)
    from Cons.IH [OF rest inv]
    obtain r where r: "fold (contradictsStep cs i) js (Some ?e) = Some r"
      "reported r = reported ?e @ filter marked (map (\<lambda>j. (cs ! i, cs ! j)) js)"
      "r \<noteq> None \<longrightarrow> reported r \<noteq> []"
      by blast
    have m: "marked (cs ! i, cs ! j)"
      using b True by (simp add: marked_def)
    from r(1) step have "fold (contradictsStep cs i) (j # js) (Some err) = Some r"
      by simp
    moreover from r(2) m
    have "reported r = reported err @ filter marked (map (\<lambda>j. (cs ! i, cs ! j)) (j # js))"
      by (simp add: reported_Join)
    ultimately show ?thesis using r(3) by blast
  next
    case False
    have step: "contradictsStep cs i j (Some err) = Some err"
      using b False by (simp add: contradictsStep_def)
    from Cons.IH [OF rest Cons.prems(2)]
    obtain r where r: "fold (contradictsStep cs i) js (Some err) = Some r"
      "reported r = reported err @ filter marked (map (\<lambda>j. (cs ! i, cs ! j)) js)"
      "r \<noteq> None \<longrightarrow> reported r \<noteq> []"
      by blast
    have m: "\<not> marked (cs ! i, cs ! j)"
      using b False by (simp add: marked_def)
    from r(1) step have "fold (contradictsStep cs i) (j # js) (Some err) = Some r"
      by simp
    moreover from r(2) m
    have "reported r = reported err @ filter marked (map (\<lambda>j. (cs ! i, cs ! j)) (j # js))"
      by simp
    ultimately show ?thesis using r(3) by blast
  qed
qed

lemma outer_loop:
  assumes "\<forall>i \<in> set is. \<forall>j \<in> set (js i). contradictEither (cs ! i) (cs ! j) \<noteq> None"
    and "err \<noteq> None \<longrightarrow> reported err \<noteq> []"
  shows "\<exists>r. fold (\<lambda>i. fold (contradictsStep cs i) (js i)) is (Some err) = Some r
              \<and> reported r
                  = reported err
                    @ filter marked (concat (map (\<lambda>i. map (\<lambda>j. (cs ! i, cs ! j)) (js i)) is))
              \<and> (r \<noteq> None \<longrightarrow> reported r \<noteq> [])"
  using assms
proof (induction "is" arbitrary: err)
  case Nil
  then show ?case by simp
next
  case (Cons i "is")
  from Cons.prems have "\<forall>j \<in> set (js i). contradictEither (cs ! i) (cs ! j) \<noteq> None"
    by simp
  from inner_loop [OF this Cons.prems(2)]
  obtain r where r: "fold (contradictsStep cs i) (js i) (Some err) = Some r"
    "reported r = reported err @ filter marked (map (\<lambda>j. (cs ! i, cs ! j)) (js i))"
    "r \<noteq> None \<longrightarrow> reported r \<noteq> []"
    by blast
  have rest: "\<forall>i \<in> set is. \<forall>j \<in> set (js i). contradictEither (cs ! i) (cs ! j) \<noteq> None"
    using Cons.prems(1) by simp
  from Cons.IH [OF rest r(3)]
  obtain r' where r': "fold (\<lambda>i. fold (contradictsStep cs i) (js i)) is (Some r) = Some r'"
    "reported r'
       = reported r @ filter marked (concat (map (\<lambda>i. map (\<lambda>j. (cs ! i, cs ! j)) (js i)) is))"
    "r' \<noteq> None \<longrightarrow> reported r' \<noteq> []"
    by blast
  from r(1) r'(1)
  have "fold (\<lambda>i. fold (contradictsStep cs i) (js i)) (i # is) (Some err) = Some r'"
    by simp
  moreover from r(2) r'(2)
  have "reported r'
          = reported err
            @ filter marked (concat (map (\<lambda>i. map (\<lambda>j. (cs ! i, cs ! j)) (js i)) (i # is)))"
    by simp
  ultimately show ?case using r'(3) by blast
qed

lemma flatten_additional: "fold (\<lambda>additionalSet acc. acc @ additionalSet) additional c = c @ concat additional"
  by (induction additional arbitrary: c) simp_all

lemma Contradicts_spec:
  assumes "constraints_ok (c @ concat additional)"
  shows "\<exists>err. Contradicts c additional = Some err
           \<and> reported err = filter marked (all_pairs (c @ concat additional))
           \<and> ((err = None) = (reported err = []))"
proof -
  let ?cs = "c @ concat additional"
  let ?n = "length ?cs"
  have ok: "\<forall>i < ?n. patch_needs_minor (version (?cs ! i))"
    using assms by (simp add: constraints_ok_def list_all_length)
  have total: "\<forall>i \<in> set [0 ..< ?n]. \<forall>j \<in> set [i + 1 ..< ?n].
                 contradictEither (?cs ! i) (?cs ! j) \<noteq> None"
  proof (intro ballI)
    fix i j
    assume "i \<in> set [0 ..< ?n]" "j \<in> set [i + 1 ..< ?n]"
    then have "i < ?n" "j < ?n" by auto
    with ok contradictEither_total [of "?cs ! i" "?cs ! j"]
    show "contradictEither (?cs ! i) (?cs ! j) \<noteq> None" by auto
  qed
  have start: "(None :: error option) \<noteq> None \<longrightarrow> reported None \<noteq> []"
    by simp
  have none: "reported None = []"
    by (simp add: reported_def)
  from outer_loop [where js = "\<lambda>i. [i + 1 ..< ?n]", OF total start]
  obtain r where r: "fold (\<lambda>i. fold (contradictsStep ?cs i) [i + 1 ..< ?n]) [0 ..< ?n] (Some None)
                       = Some r"
    "reported r = reported None @ filter marked (all_pairs ?cs)"
    "r \<noteq> None \<longrightarrow> reported r \<noteq> []"
    unfolding all_pairs_def by blast
  have "Contradicts c additional = Some r"
    using r(1) by (simp add: Contradicts_def flatten_additional Let_def)
  moreover have "reported r = filter marked (all_pairs ?cs)"
    using r(2) none by simp
  moreover have "(r = None) = (reported r = [])"
    using r(3) none by auto
  ultimately show ?thesis by blast
qed

lemma set_all_pairs:
  "set (all_pairs xs) = (\<Union>i \<in> {0 ..< length xs}. (\<lambda>j. (xs ! i, xs ! j)) ` {Suc i ..< length xs})"
  by (simp add: all_pairs_def)

lemma mem_all_pairs:
  "(p \<in> set (all_pairs xs)) = (\<exists>i j. i < j \<and> j < length xs \<and> p = (xs ! i, xs ! j))"
proof
  assume "p \<in> set (all_pairs xs)"
  then obtain i j where "i < length xs" "Suc i \<le> j" "j < length xs" "p = (xs ! i, xs ! j)"
    unfolding set_all_pairs by auto
  then have "i < j \<and> j < length xs \<and> p = (xs ! i, xs ! j)"
    by simp
  then show "\<exists>i j. i < j \<and> j < length xs \<and> p = (xs ! i, xs ! j)"
    by blast
next
  assume "\<exists>i j. i < j \<and> j < length xs \<and> p = (xs ! i, xs ! j)"
  then obtain i j where ij: "i < j" "j < length xs" "p = (xs ! i, xs ! j)"
    by blast
  then have i: "i \<in> {0 ..< length xs}" and j: "j \<in> {Suc i ..< length xs}"
    by simp_all
  from j have "(xs ! i, xs ! j) \<in> (\<lambda>j. (xs ! i, xs ! j)) ` {Suc i ..< length xs}"
    by (rule imageI)
  with i ij(3) show "p \<in> set (all_pairs xs)"
    unfolding set_all_pairs by (intro UN_I [of i]) simp_all
qed

lemma all_pairs_index_pairs:
  "all_pairs xs = map (\<lambda>(i, j). (xs ! i, xs ! j)) (index_pairs (length xs))"
  by (simp add: all_pairs_def index_pairs_def map_concat comp_def)

lemma set_index_pairs: "set (index_pairs n) = {(i, j). i < j \<and> j < n}"
proof (intro set_eqI iffI)
  fix p
  assume "p \<in> set (index_pairs n)"
  then show "p \<in> {(i, j). i < j \<and> j < n}"
    by (auto simp add: index_pairs_def)
next
  fix p :: "nat \<times> nat"
  assume "p \<in> {(i, j). i < j \<and> j < n}"
  then obtain i j where p: "p = (i, j)" "i < j" "j < n"
    by auto
  then have "i \<in> {0 ..< n}" "(i, j) \<in> Pair i ` {Suc i ..< n}"
    by auto
  then have "(i, j) \<in> (\<Union>i \<in> {0 ..< n}. Pair i ` {Suc i ..< n})"
    by (rule UN_I)
  with p(1) show "p \<in> set (index_pairs n)"
    by (simp add: index_pairs_def)
qed

lemma distinct_concat_map:
  assumes "distinct xs"
    and "\<And>x. x \<in> set xs \<Longrightarrow> distinct (f x)"
    and "\<And>x y. x \<in> set xs \<Longrightarrow> y \<in> set xs \<Longrightarrow> x \<noteq> y \<Longrightarrow> set (f x) \<inter> set (f y) = {}"
  shows "distinct (concat (map f xs))"
  using assms
proof (induction xs)
  case Nil
  show ?case by simp
next
  case (Cons x xs)
  have "distinct (concat (map f xs))"
    using Cons by (intro Cons.IH) auto
  moreover have "distinct (f x)"
    using Cons.prems(2) by simp
  moreover have "set (f x) \<inter> set (concat (map f xs)) = {}"
  proof -
    have "\<And>y. y \<in> set xs \<Longrightarrow> set (f x) \<inter> set (f y) = {}"
      using Cons.prems(1,3) by auto
    then show ?thesis by auto
  qed
  ultimately show ?case by simp
qed

lemma distinct_index_pairs: "distinct (index_pairs n)"
  unfolding index_pairs_def
  by (rule distinct_concat_map) (auto simp add: distinct_map inj_on_def)

text \<open>
  Claim C6. \<open>Contradicts\<close> works on the receiver followed by the additional sets. When no
  version among them has a patch without a minor, it returns, and the pairs recovered from the
  returned error are, in order, the pairs \<open>(xs[i], xs[j])\<close> for which \<open>checkContradict\<close>
  returns true in one of the two argument orders; the error is nil exactly when there is no
  such pair. The set \<open>>= 2.0.0, < 2.0.0\<close> gives that one pair and the set
  \<open>>= 2.0.0, <= 3.0.0\<close> gives nil. The pairs gone through are those at the index pairs
  \<open>i < j\<close>, which are listed without repetition and are all of them.
\<close>

theorem contradicts_all_pairs:
  "(constraints_ok (c @ concat additional) \<longrightarrow>
      (\<exists>err. Contradicts c additional = Some err
         \<and> reported err
             = filter (\<lambda>(c1, c2). checkContradict c1 c2 = Some True
                                 \<or> checkContradict c2 c1 = Some True)
                 (all_pairs (c @ concat additional))
         \<and> ((err = None) = (reported err = []))))
   \<and> Contradicts [NewConstraint GE (NewVersion 2 0 0), NewConstraint LT (NewVersion 2 0 0)] []
       = Some (Some (joinError [ContradictionErr (NewConstraint GE (NewVersion 2 0 0))
                                                 (NewConstraint LT (NewVersion 2 0 0))]))
   \<and> reported (Some (joinError [ContradictionErr (NewConstraint GE (NewVersion 2 0 0))
                                                  (NewConstraint LT (NewVersion 2 0 0))]))
       = [(NewConstraint GE (NewVersion 2 0 0), NewConstraint LT (NewVersion 2 0 0))]
   \<and> Contradicts [NewConstraint GE (NewVersion 2 0 0), NewConstraint LE (NewVersion 3 0 0)] []
       = Some None
   \<and> all_pairs (c @ concat additional)
       = map (\<lambda>(i, j). ((c @ concat additional) ! i, (c @ concat additional) ! j))
           (index_pairs (length (c @ concat additional)))
   \<and> distinct (index_pairs n)
   \<and> set (index_pairs n) = {(i, j). i < j \<and> j < n}"
proof (intro conjI impI)
  let ?cs = "c @ concat additional"
  assume ok: "constraints_ok ?cs"
  from Contradicts_spec [OF ok]
  obtain err where err: "Contradicts c additional = Some err"
    "reported err = filter marked (all_pairs ?cs)"
    "(err = None) = (reported err = [])"
    by blast
  have "filter marked (all_pairs ?cs)
          = filter (\<lambda>(c1, c2). checkContradict c1 c2 = Some True
                               \<or> checkContradict c2 c1 = Some True) (all_pairs ?cs)"
  proof (rule filter_cong [OF refl])
    fix p
    assume "p \<in> set (all_pairs ?cs)"
    then obtain i j where ij: "i < j" "j < length ?cs" "p = (?cs ! i, ?cs ! j)"
      unfolding mem_all_pairs by blast
    with ok have "patch_needs_minor (version (?cs ! i))" "patch_needs_minor (version (?cs ! j))"
      by (simp_all add: constraints_ok_def list_all_length)
    from contradictEither_True_iff [OF this] ij(3)
    show "marked p = (case p of (c1, c2) \<Rightarrow>
            checkContradict c1 c2 = Some True \<or> checkContradict c2 c1 = Some True)"
      by (simp add: marked_def)
  qed
  with err show "\<exists>err. Contradicts c additional = Some err
         \<and> reported err
             = filter (\<lambda>(c1, c2). checkContradict c1 c2 = Some True
                                 \<or> checkContradict c2 c1 = Some True)
                 (all_pairs (c @ concat additional))
         \<and> ((err = None) = (reported err = []))"
    by simp
next
  show "Contradicts [NewConstraint GE (NewVersion 2 0 0), NewConstraint LT (NewVersion 2 0 0)] []
       = Some (Some (joinError [ContradictionErr (NewConstraint GE (NewVersion 2 0 0))
                                                 (NewConstraint LT (NewVersion 2 0 0))]))"
    by code_simp
next
  show "reported (Some (joinError [ContradictionErr (NewConstraint GE (NewVersion 2 0 0))
                                                  (NewConstraint LT (NewVersion 2 0 0))]))
       = [(NewConstraint GE (NewVersion 2 0 0), NewConstraint LT (NewVersion 2 0 0))]"
    by (simp add: reported_def)
next
  show "Contradicts [NewConstraint GE (NewVersion 2 0 0), NewConstraint LE (NewVersion 3 0 0)] []
       = Some None"
    by code_simp
next
  show "all_pairs (c @ concat additional)
       = map (\<lambda>(i, j). ((c @ concat additional) ! i, (c @ concat additional) ! j))
           (index_pairs (length (c @ concat additional)))"
    by (rule all_pairs_index_pairs)
next
  show "distinct (index_pairs n)"
    by (rule distinct_index_pairs)
next
  show "set (index_pairs n) = {(i, j). i < j \<and> j < n}"
    by (rule set_index_pairs)
qed

text \<open>
  A receiver of two constraints and one additional set: two of the three pairs are reported,
  in the order of the loops.
\<close>

theorem contradicts_all_pairs_witness:
  "constraints_ok ([NewConstraint GE (NewVersion 2 0 0), NewConstraint LT (NewVersion 2 0 0)]
                   @ concat [[NewConstraint EQ (NewVersion 1 0 0)]])
   \<and> (\<exists>err. Contradicts [NewConstraint GE (NewVersion 2 0 0), NewConstraint LT (NewVersion 2 0 0)]
                         [[NewConstraint EQ (NewVersion 1 0 0)]] = Some err
         \<and> reported err
             = [(NewConstraint GE (NewVersion 2 0 0), NewConstraint LT (NewVersion 2 0 0)),
                (NewConstraint GE (NewVersion 2 0 0), NewConstraint EQ (NewVersion 1 0 0))]
         \<and> err \<noteq> None)"
proof -
  let ?c = "[NewConstraint GE (NewVersion 2 0 0), NewConstraint LT (NewVersion 2 0 0)]"
  let ?a = "[[NewConstraint EQ (NewVersion 1 0 0)]]"
  have ok: "constraints_ok (?c @ concat ?a)"
    by code_simp
  have pairs: "filter (\<lambda>(c1, c2). checkContradict c1 c2 = Some True
                                 \<or> checkContradict c2 c1 = Some True)
                 (all_pairs (?c @ concat ?a))
               = [(NewConstraint GE (NewVersion 2 0 0), NewConstraint LT (NewVersion 2 0 0)),
                  (NewConstraint GE (NewVersion 2 0 0), NewConstraint EQ (NewVersion 1 0 0))]"
    by code_simp
  from contradicts_all_pairs [of ?c ?a] ok
  obtain err where "Contradicts ?c ?a = Some err"
    "reported err = filter (\<lambda>(c1, c2). checkContradict c1 c2 = Some True
                                 \<or> checkContradict c2 c1 = Some True)
                 (all_pairs (?c @ concat ?a))"
    "(err = None) = (reported err = [])"
    by blast
  with pairs ok show ?thesis
    by auto
qed

lemma Contradicts_reported_mem:
  assumes "constraints_ok (c @ concat additional)"
  shows "\<exists>err. Contradicts c additional = Some err
           \<and> (\<forall>p. (p \<in> set (reported err))
                    = (p \<in> set (all_pairs (c @ concat additional)) \<and> marked p))"
proof -
  from Contradicts_spec [OF assms]
  obtain err where "Contradicts c additional = Some err"
    "reported err = filter marked (all_pairs (c @ concat additional))"
    by blast
  then show ?thesis by auto
qed

lemma gt_ge_either:
  assumes "operator g = GT" "operator e = GE"
  shows "contradictEither g e = Some (\<not> Less (version g) (version e))"
    and "contradictEither e g = Some (\<not> Less (version g) (version e))"
proof -
  have ge: "checkContradict g e = Some (Greater (version g) (version e))"
    using assms
    by (simp add: checkContradict_def Overlaps_def operator_defs LessEqual_def)
  have eg: "checkContradict e g = Some (Equal (version g) (version e))"
    using assms Less_asym [of "version g" "version e"]
    by (auto simp add: checkContradict_def Overlaps_def operator_defs Greater_def Equal_def)
  have g_val: "Greater (version g) (version e) = Less (version e) (version g)"
    by (rule Greater_iff_Less)
  have e_val: "Equal (version g) (version e)
                 = (\<not> Less (version g) (version e) \<and> \<not> Less (version e) (version g))"
    by (simp add: Equal_def)
  show "contradictEither g e = Some (\<not> Less (version g) (version e))"
    unfolding contradictEither_def ge eg g_val e_val
    using Less_asym [of "version g" "version e"]
    by (cases "Less (version g) (version e)"; cases "Less (version e) (version g)") simp_all
  show "contradictEither e g = Some (\<not> Less (version g) (version e))"
    unfolding contradictEither_def ge eg g_val e_val
    using Less_asym [of "version g" "version e"]
    by (cases "Less (version g) (version e)"; cases "Less (version e) (version g)") simp_all
qed

lemma ne_other_either:
  assumes "operator n = NE" "operator other \<noteq> NE"
  shows "contradictEither n other = Satisfies (version n) other"
    and "contradictEither other n = Satisfies (version n) other"
proof -
  have a: "checkContradict n other = Satisfies (version n) other"
    using assms by (simp add: checkContradict_def operator_defs)
  have b: "checkContradict other n = Satisfies (version n) other"
    using assms by (simp add: checkContradict_def operator_defs)
  show "contradictEither n other = Satisfies (version n) other"
    by (simp add: contradictEither_def a b split: option.splits bool.splits)
  show "contradictEither other n = Satisfies (version n) other"
    by (simp add: contradictEither_def a b split: option.splits bool.splits)
qed

lemma ne_ne_either:
  assumes "operator a = NE" "operator b = NE"
  shows "contradictEither a b = Some False"
proof -
  have "checkContradict a b = Some False" "checkContradict b a = Some False"
    using assms by (auto simp add: checkContradict_def operator_defs Equal_def)
  then show ?thesis
    by (simp add: contradictEither_def)
qed

section \<open>Contradictions between particular operators\<close>

text \<open>
  Claim C2, as the code has it. For a \<open>>\<close> constraint \<open>g\<close> and a \<open>>=\<close> constraint \<open>e\<close>, in
  either order, the loop body of \<open>Contradicts\<close> marks the pair exactly when the version of
  \<open>g\<close> is not strictly less than the version of \<open>e\<close>. So a pair with a strictly smaller
  \<open>>\<close> bound is never among the reported pairs, and a pair of the set with equal bounds is.
\<close>

theorem gt_ge_no_contradiction:
  assumes "operator g = GT" and "operator e = GE"
  shows "contradictEither g e = Some (\<not> Less (version g) (version e))
         \<and> contradictEither e g = Some (\<not> Less (version g) (version e))
         \<and> (constraints_ok (c @ concat additional) \<longrightarrow>
              (\<exists>err. Contradicts c additional = Some err
                 \<and> ((g, e) \<in> set (reported err))
                     = ((g, e) \<in> set (all_pairs (c @ concat additional))
                        \<and> \<not> Less (version g) (version e))
                 \<and> ((e, g) \<in> set (reported err))
                     = ((e, g) \<in> set (all_pairs (c @ concat additional))
                        \<and> \<not> Less (version g) (version e))))"
proof (intro conjI impI)
  show a: "contradictEither g e = Some (\<not> Less (version g) (version e))"
    using assms by (rule gt_ge_either(1))
  show b: "contradictEither e g = Some (\<not> Less (version g) (version e))"
    using assms by (rule gt_ge_either(2))
  assume "constraints_ok (c @ concat additional)"
  from Contradicts_reported_mem [OF this]
  obtain err where err: "Contradicts c additional = Some err"
    "\<forall>p. (p \<in> set (reported err))
           = (p \<in> set (all_pairs (c @ concat additional)) \<and> marked p)"
    by blast
  have "marked (g, e) = (\<not> Less (version g) (version e))"
    "marked (e, g) = (\<not> Less (version g) (version e))"
    by (simp_all add: marked_def a b)
  with err show "\<exists>err. Contradicts c additional = Some err
                 \<and> ((g, e) \<in> set (reported err))
                     = ((g, e) \<in> set (all_pairs (c @ concat additional))
                        \<and> \<not> Less (version g) (version e))
                 \<and> ((e, g) \<in> set (reported err))
                     = ((e, g) \<in> set (all_pairs (c @ concat additional))
                        \<and> \<not> Less (version g) (version e))"
    by simp
qed

text \<open>The set \<open>>= 1.2.1, > 1.2.0\<close>: the pair is not reported.\<close>

theorem gt_ge_no_contradiction_witness:
  "operator (NewConstraint GT (NewVersion 1 2 0)) = GT
   \<and> operator (NewConstraint GE (NewVersion 1 2 1)) = GE
   \<and> constraints_ok ([NewConstraint GE (NewVersion 1 2 1), NewConstraint GT (NewVersion 1 2 0)]
                     @ concat [])
   \<and> Less (version (NewConstraint GT (NewVersion 1 2 0)))
          (version (NewConstraint GE (NewVersion 1 2 1)))
   \<and> contradictEither (NewConstraint GT (NewVersion 1 2 0)) (NewConstraint GE (NewVersion 1 2 1))
       = Some False
   \<and> (\<exists>err. Contradicts [NewConstraint GE (NewVersion 1 2 1), NewConstraint GT (NewVersion 1 2 0)]
               [] = Some err
          \<and> (NewConstraint GE (NewVersion 1 2 1), NewConstraint GT (NewVersion 1 2 0))
              \<notin> set (reported err))"
proof -
  let ?g = "NewConstraint GT (NewVersion 1 2 0)"
  let ?e = "NewConstraint GE (NewVersion 1 2 1)"
  have g: "operator ?g = GT" and e: "operator ?e = GE"
    by (simp_all add: NewConstraint_def)
  have ok: "constraints_ok ([?e, ?g] @ concat [])"
    by code_simp
  have lt: "Less (version ?g) (version ?e)"
    by code_simp
  note inst = gt_ge_no_contradiction [OF g e, of "[?e, ?g]" "[]"]
  from inst lt have "contradictEither ?g ?e = Some False"
    by simp
  moreover from inst ok lt
  have "\<exists>err. Contradicts [?e, ?g] [] = Some err \<and> (?e, ?g) \<notin> set (reported err)"
    by blast
  ultimately show ?thesis
    using g e ok lt by blast
qed

text \<open>
  The exemption as the specification words it fails at equal bounds: the bound of
  \<open>> 1.0.0\<close> is less than or equal to the bound of \<open>>= 1.0.0\<close>, and \<open>Contradicts\<close> reports
  the pair.
\<close>

theorem gt_ge_equal_bounds_counterexample:
  "LessEqual (version (NewConstraint GT (NewVersion 1 0 0)))
             (version (NewConstraint GE (NewVersion 1 0 0)))
   \<and> Contradicts [NewConstraint GE (NewVersion 1 0 0), NewConstraint GT (NewVersion 1 0 0)] []
       = Some (Some (joinError [ContradictionErr (NewConstraint GE (NewVersion 1 0 0))
                                                 (NewConstraint GT (NewVersion 1 0 0))]))"
  by code_simp

text \<open>
  Claim C3, as the code has it. For a pair in which exactly one constraint \<open>n\<close> has operator
  \<open>!=\<close>, the loop body of \<open>Contradicts\<close> marks the pair exactly when the version of \<open>n\<close>
  satisfies the other constraint (not the other way round), and the pair is reported exactly
  when it is a pair of the set and that holds. A pair of two \<open>!=\<close> constraints is never marked
  and never reported.
\<close>

theorem ne_contradiction:
  "(operator n = NE \<and> operator other \<noteq> NE \<longrightarrow>
      contradictEither n other = Satisfies (version n) other
      \<and> contradictEither other n = Satisfies (version n) other
      \<and> (constraints_ok (c @ concat additional) \<longrightarrow>
           (\<exists>err. Contradicts c additional = Some err
              \<and> ((n, other) \<in> set (reported err))
                  = ((n, other) \<in> set (all_pairs (c @ concat additional))
                     \<and> Satisfies (version n) other = Some True)
              \<and> ((other, n) \<in> set (reported err))
                  = ((other, n) \<in> set (all_pairs (c @ concat additional))
                     \<and> Satisfies (version n) other = Some True))))
   \<and> (operator n = NE \<and> operator other = NE \<longrightarrow>
        contradictEither n other = Some False
        \<and> (constraints_ok (c @ concat additional) \<longrightarrow>
             (\<exists>err. Contradicts c additional = Some err \<and> (n, other) \<notin> set (reported err))))"
proof (intro conjI impI)
  assume h: "operator n = NE \<and> operator other \<noteq> NE"
  then show a: "contradictEither n other = Satisfies (version n) other"
    by (simp add: ne_other_either(1))
  from h show b: "contradictEither other n = Satisfies (version n) other"
    by (simp add: ne_other_either(2))
  assume "constraints_ok (c @ concat additional)"
  from Contradicts_reported_mem [OF this]
  obtain err where err: "Contradicts c additional = Some err"
    "\<forall>p. (p \<in> set (reported err))
           = (p \<in> set (all_pairs (c @ concat additional)) \<and> marked p)"
    by blast
  have "marked (n, other) = (Satisfies (version n) other = Some True)"
    "marked (other, n) = (Satisfies (version n) other = Some True)"
    by (simp_all add: marked_def a b)
  with err show "\<exists>err. Contradicts c additional = Some err
              \<and> ((n, other) \<in> set (reported err))
                  = ((n, other) \<in> set (all_pairs (c @ concat additional))
                     \<and> Satisfies (version n) other = Some True)
              \<and> ((other, n) \<in> set (reported err))
                  = ((other, n) \<in> set (all_pairs (c @ concat additional))
                     \<and> Satisfies (version n) other = Some True)"
    by simp
next
  assume h: "operator n = NE \<and> operator other = NE"
  then show a: "contradictEither n other = Some False"
    by (simp add: ne_ne_either)
  assume "constraints_ok (c @ concat additional)"
  from Contradicts_reported_mem [OF this]
  obtain err where err: "Contradicts c additional = Some err"
    "\<forall>p. (p \<in> set (reported err))
           = (p \<in> set (all_pairs (c @ concat additional)) \<and> marked p)"
    by blast
  have "\<not> marked (n, other)"
    by (simp add: marked_def a)
  with err show "\<exists>err. Contradicts c additional = Some err \<and> (n, other) \<notin> set (reported err)"
    by simp
qed

text \<open>
  The set \<open>= 1.2.3, != 1.2.3, != 1.2.3\<close>: the pair of \<open>=\<close> and \<open>!=\<close> is reported, the pair of
  the two \<open>!=\<close> constraints is not.
\<close>

theorem ne_contradiction_witness:
  "operator (NewConstraint NE (NewVersion 1 2 3)) = NE
   \<and> operator (NewConstraint EQ (NewVersion 1 2 3)) \<noteq> NE
   \<and> constraints_ok ([NewConstraint EQ (NewVersion 1 2 3), NewConstraint NE (NewVersion 1 2 3),
                      NewConstraint NE (NewVersion 1 2 3)] @ concat [])
   \<and> Satisfies (version (NewConstraint NE (NewVersion 1 2 3)))
               (NewConstraint EQ (NewVersion 1 2 3)) = Some True
   \<and> (\<exists>err. Contradicts [NewConstraint EQ (NewVersion 1 2 3), NewConstraint NE (NewVersion 1 2 3),
                          NewConstraint NE (NewVersion 1 2 3)] [] = Some err
          \<and> (NewConstraint EQ (NewVersion 1 2 3), NewConstraint NE (NewVersion 1 2 3))
              \<in> set (reported err)
          \<and> (NewConstraint NE (NewVersion 1 2 3), NewConstraint NE (NewVersion 1 2 3))
              \<notin> set (reported err))"
proof -
  let ?n = "NewConstraint NE (NewVersion 1 2 3)"
  let ?o = "NewConstraint EQ (NewVersion 1 2 3)"
  have n: "operator ?n = NE" and o: "operator ?o \<noteq> NE"
    by (simp_all add: NewConstraint_def operator_defs)
  have ok: "constraints_ok ([?o, ?n, ?n] @ concat [])"
    by code_simp
  have sat: "Satisfies (version ?n) ?o = Some True"
    by code_simp
  have pair: "(?o, ?n) \<in> set (all_pairs ([?o, ?n, ?n] @ concat []))"
    by code_simp
  from ne_contradiction [of ?n ?o "[?o, ?n, ?n]" "[]"] n o ok
  obtain err where e1: "Contradicts [?o, ?n, ?n] [] = Some err"
    "((?o, ?n) \<in> set (reported err))
       = ((?o, ?n) \<in> set (all_pairs ([?o, ?n, ?n] @ concat []))
          \<and> Satisfies (version ?n) ?o = Some True)"
    by blast
  from ne_contradiction [of ?n ?n "[?o, ?n, ?n]" "[]"] n ok
  obtain err' where e2: "Contradicts [?o, ?n, ?n] [] = Some err'"
    "(?n, ?n) \<notin> set (reported err')"
    by blast
  from e1 e2 have "err' = err" by simp
  with e1 e2 sat pair
  have "\<exists>err. Contradicts [?o, ?n, ?n] [] = Some err
          \<and> (?o, ?n) \<in> set (reported err) \<and> (?n, ?n) \<notin> set (reported err)"
    by blast
  with n o ok sat show ?thesis
    by blast
qed

text \<open>
  The rule as the specification words it fails twice: 2.0.0 satisfies \<open>!= 1.0.0\<close> and the set
  \<open>= 2.0.0, != 1.0.0\<close> has no contradiction; the two versions of \<open>!= 1.0.0, != 1.0.0\<close> are
  equal and the set has no contradiction.
\<close>

theorem ne_contradiction_counterexample:
  "Satisfies (version (NewConstraint EQ (NewVersion 2 0 0))) (NewConstraint NE (NewVersion 1 0 0))
     = Some True
   \<and> Contradicts [NewConstraint EQ (NewVersion 2 0 0), NewConstraint NE (NewVersion 1 0 0)] []
       = Some None
   \<and> Equal (version (NewConstraint NE (NewVersion 1 0 0)))
           (version (NewConstraint NE (NewVersion 1 0 0)))
   \<and> Contradicts [NewConstraint NE (NewVersion 1 0 0), NewConstraint NE (NewVersion 1 0 0)] []
       = Some None"
  by code_simp

section \<open>Rendering and parsing back\<close>

lemma digit_cases:
  "d < 10 \<Longrightarrow> d = 0 \<or> d = 1 \<or> d = 2 \<or> d = 3 \<or> d = 4 \<or> d = 5 \<or> d = 6 \<or> d = 7 \<or> d = 8 \<or> d = (9::nat)"
  by arith

lemma is_digit_digit_char: "d < 10 \<Longrightarrow> is_digit (digit_char d)"
  using digit_cases [of d] by (auto simp add: is_digit_def digit_char_def)

lemma digit_val_digit_char: "d < 10 \<Longrightarrow> digit_val (digit_char d) = of_nat d"
  using digit_cases [of d] by (auto simp add: digit_val_def digit_char_def)

lemma digit_char_zero: "d < 10 \<Longrightarrow> (digit_char d = CHR ''0'') = (d = 0)"
  using digit_cases [of d] by (auto simp add: digit_char_def)

lemma format_nat_digits: "list_all is_digit (format_nat n)"
proof (induction n rule: format_nat.induct)
  case (1 n)
  show ?case
  proof (cases "n < 10")
    case True
    then show ?thesis by (simp add: is_digit_digit_char)
  next
    case False
    with 1 show ?thesis
      by (subst format_nat.simps) (simp add: is_digit_digit_char)
  qed
qed

lemma format_nat_not_Nil: "format_nat n \<noteq> []"
  by (subst format_nat.simps) simp

lemma format_nat_hd: "0 < n \<Longrightarrow> hd (format_nat n) \<noteq> CHR ''0''"
proof (induction n rule: format_nat.induct)
  case (1 n)
  show ?case
  proof (cases "n < 10")
    case True
    with 1(2) show ?thesis by (simp add: digit_char_zero)
  next
    case False
    then have "0 < n div 10" by simp
    with 1(1) False have "hd (format_nat (n div 10)) \<noteq> CHR ''0''" by simp
    with False show ?thesis
      by (subst format_nat.simps) (simp add: format_nat_not_Nil)
  qed
qed

lemma format_nat_zero: "format_nat 0 = ''0''"
  by (subst format_nat.simps) (simp add: digit_char_def)

lemma numeric_ident_format_nat: "numeric_ident (format_nat n)"
proof (cases "n = 0")
  case True
  then show ?thesis by (simp add: numeric_ident_def digit_char_def)
next
  case False
  then show ?thesis
    using format_nat_hd [of n] format_nat_digits [of n] format_nat_not_Nil [of n]
    by (simp add: numeric_ident_def)
qed

lemma parse_digits_append:
  "parse_digits (xs @ ys) a
     = (case parse_digits xs a of Inl e \<Rightarrow> Inl e | Inr b \<Rightarrow> parse_digits ys b)"
  by (induction xs arbitrary: a) (simp_all add: Let_def)

lemma unat_of_nat64: "k < 2 ^ 64 \<Longrightarrow> unat (of_nat k :: uint64) = k"
  by (simp add: unat_of_nat)

lemma parse_last_digit:
  assumes "n < 2 ^ 64"
  shows "parse_digits [digit_char (n mod 10)] (of_nat (n div 10)) = Inr (of_nat n)"
proof -
  let ?q = "of_nat (n div 10) :: uint64"
  have "n div 10 < 2 ^ 64"
    using assms by simp
  then have q: "unat ?q = n div 10"
    by (rule unat_of_nat64)
  have "n div 10 < 1844674407370955162"
    using assms by simp
  then have c: "\<not> cutoff \<le> ?q"
    by (simp add: cutoff_def word_le_nat_alt q)
  have split: "n div 10 * 10 + n mod 10 = n"
    by simp
  have "?q * 10 + of_nat (n mod 10) = (of_nat (n div 10 * 10 + n mod 10) :: uint64)"
    by (simp only: of_nat_add of_nat_mult of_nat_numeral)
  then have sum: "?q * 10 + digit_val (digit_char (n mod 10)) = of_nat n"
    by (simp only: split digit_val_digit_char [of "n mod 10"] mod_less_divisor)
  have "unat ?q * unat (10 :: uint64) < 2 ^ LENGTH(64)"
    using assms by (simp add: q)
  then have m: "unat (?q * 10) = n div 10 * 10"
    by (simp only: unat_mult_lem [THEN iffD1] q) simp
  have n: "unat (of_nat n :: uint64) = n"
    using assms by (rule unat_of_nat64)
  have lt: "\<not> (of_nat n :: uint64) < ?q * 10"
    unfolding word_less_nat_alt m n by simp
  have mx: "\<not> (of_nat n :: uint64) > maxUint64"
    unfolding word_less_nat_alt n maxUint64_def using assms by simp
  have d: "is_digit (digit_char (n mod 10))"
    by (simp add: is_digit_digit_char)
  show ?thesis
    using c lt mx d by (simp add: Let_def sum del: of_nat_mult of_nat_add)
qed

lemma parse_digits_format_nat:
  "n < 2 ^ 64 \<Longrightarrow> parse_digits (format_nat n) 0 = Inr (of_nat n)"
proof (induction n rule: format_nat.induct)
  case (1 n)
  show ?case
  proof (cases "n < 10")
    case True
    then have "n mod 10 = n" "n div 10 = 0" by simp_all
    with parse_last_digit [OF 1(2)] True show ?thesis
      by (subst format_nat.simps) simp
  next
    case False
    from 1(2) have "n div 10 < 2 ^ 64" by simp
    with 1(1) False have "parse_digits (format_nat (n div 10)) 0 = Inr (of_nat (n div 10))"
      by simp
    with parse_last_digit [OF 1(2)] False show ?thesis
      by (subst format_nat.simps) (simp add: parse_digits_append)
  qed
qed

lemma ParseUint_FormatUint: "ParseUint (FormatUint n) = Inr n"
proof -
  have "unat n < 2 ^ 64"
    using unsigned_less [of n, where 'a = nat] by simp
  from parse_digits_format_nat [OF this] show ?thesis
    by (simp add: ParseUint_def FormatUint_def format_nat_not_Nil)
qed

lemma dot_not_digit: "\<not> is_digit CHR ''.''"
  by (simp add: is_digit_def)

lemma takeWhile_digits_dot:
  "list_all is_digit a \<Longrightarrow> takeWhile is_digit (a @ CHR ''.'' # r) = a"
  by (simp add: list_all_iff takeWhile_append2 dot_not_digit)

lemma dropWhile_digits_dot:
  "list_all is_digit a \<Longrightarrow> dropWhile is_digit (a @ CHR ''.'' # r) = CHR ''.'' # r"
  by (simp add: list_all_iff dropWhile_append2 dot_not_digit)

lemma takeWhile_digits_all: "list_all is_digit a \<Longrightarrow> takeWhile is_digit a = a"
  by (simp add: list_all_iff)

lemma dropWhile_digits_all: "list_all is_digit a \<Longrightarrow> dropWhile is_digit a = []"
  by (simp add: list_all_iff)

lemma semVer_tail_Nil: "semVer_tail [] = Some ([], [])"
  by (simp add: semVer_tail_def)

lemma semVer_find_plain:
  assumes "numeric_ident a" "list_all is_digit a"
    and "numeric_ident b" "list_all is_digit b"
    and "numeric_ident c" "list_all is_digit c"
  shows "semVer_find (a @ ''.'' @ b @ ''.'' @ c) = [a @ ''.'' @ b @ ''.'' @ c, a, b, c, [], []]"
  using assms
  by (simp add: semVer_find_def takeWhile_digits_dot dropWhile_digits_dot
      takeWhile_digits_all dropWhile_digits_all semVer_tail_Nil)

lemma parseGroups_semVer_plain:
  assumes "ParseUint a = Inr ma" "ParseUint b = Inr mi" "ParseUint c = Inr pa"
    and "b \<noteq> []" "c \<noteq> []"
  shows "parseGroups (SubexpNames semVerRegex) [s, a, b, c, [], []] zeroVersion
           = Inr (NewVersion ma mi pa)"
  using assms by (simp add: semVerRegex_def zeroVersion_def NewVersion_def)

lemma ParseSemVer_plain:
  "ParseSemVer (FormatUint ma @ ''.'' @ FormatUint mi @ ''.'' @ FormatUint pa)
     = Some (Inr (NewVersion ma mi pa))"
proof -
  let ?s = "FormatUint ma @ ''.'' @ FormatUint mi @ ''.'' @ FormatUint pa"
  have find: "semVer_find ?s = [?s, FormatUint ma, FormatUint mi, FormatUint pa, [], []]"
    unfolding FormatUint_def
    by (intro semVer_find_plain numeric_ident_format_nat format_nat_digits)
  have groups: "parseGroups (SubexpNames semVerRegex)
                  [?s, FormatUint ma, FormatUint mi, FormatUint pa, [], []] zeroVersion
                = Inr (NewVersion ma mi pa)"
    by (intro parseGroups_semVer_plain ParseUint_FormatUint)
       (simp_all add: FormatUint_def format_nat_not_Nil)
  have names: "length (SubexpNames semVerRegex) = 6"
    by (simp add: semVerRegex_def)
  have f: "FindStringSubmatch semVerRegex = semVer_find"
    by (simp add: semVerRegex_def)
  show ?thesis
    unfolding ParseSemVer_def parseVersion_def f Let_def find groups names
    by simp
qed

lemma StrictString_plain:
  "StrictString (NewVersion ma mi pa)
     = Some (Inr (FormatUint ma @ ''.'' @ FormatUint mi @ ''.'' @ FormatUint pa))"
  by (simp add: StrictString_def NewVersion_def)

text \<open>
  Claim C8. For every version made by \<open>NewVersion\<close>, \<open>StrictString\<close> succeeds, with the three
  numbers in decimal separated by dots, and \<open>ParseSemVer\<close> of that string succeeds with a
  version whose major, minor, patch, pre-release and build metadata are those of the original.
\<close>

theorem strict_string_roundtrip:
  "\<exists>s. StrictString (NewVersion ma mi pa) = Some (Inr s)
       \<and> ParseSemVer s = Some (Inr (NewVersion ma mi pa))
       \<and> s = FormatUint ma @ ''.'' @ FormatUint mi @ ''.'' @ FormatUint pa"
  using StrictString_plain ParseSemVer_plain by blast

section \<open>Copy on write\<close>

lemmas stmt_defs = ret_def and_then_def new_cell_def deref_def assign_def clone_cell_def

lemmas frame_defs = returns_fresh_def observed_result_def observe_def allocated_def cells_def

lemma SetPreRelease_p_fresh:
  assumes "allocated h v"
  shows "returns_fresh h v (SetPreRelease_p v pre h)
         \<and> observed_result (SetPreRelease_p v pre h) = Some (SetPreRelease (observe h v) pre)"
  using assms
  by (cases "minor_p v"; cases "patch_p v")
     (simp_all add: SetPreRelease_p_def SetPreRelease_def clone_p_def clone_def stmt_defs
        frame_defs nth_append)

lemma SetBuildMetadata_p_fresh:
  assumes "allocated h v"
  shows "returns_fresh h v (SetBuildMetadata_p v bm h)
         \<and> observed_result (SetBuildMetadata_p v bm h)
             = Some (SetBuildMetadata (observe h v) bm)"
  using assms
  by (cases "minor_p v"; cases "patch_p v")
     (simp_all add: SetBuildMetadata_p_def SetBuildMetadata_def clone_p_def clone_def stmt_defs
        frame_defs nth_append)

lemma Increment_p_fresh:
  assumes "allocated h v"
  shows "returns_fresh h v (Increment_p v h)
         \<and> observed_result (Increment_p v h) = Some (Increment (observe h v))"
  using assms
  by (cases "minor_p v"; cases "patch_p v")
     (simp_all add: Increment_p_def Increment_def clone_p_def clone_def stmt_defs
        frame_defs nth_append Let_def)

lemma IncrementMajor_p_fresh:
  assumes "allocated h v"
  shows "returns_fresh h v (IncrementMajor_p v h)
         \<and> observed_result (IncrementMajor_p v h) = Some (IncrementMajor (observe h v))"
  using assms
  by (cases "minor_p v"; cases "patch_p v")
     (simp_all add: IncrementMajor_p_def IncrementMajor_def stmt_defs frame_defs nth_append)

lemma IncrementMinor_p_fresh:
  assumes "allocated h v"
  shows "returns_fresh h v (IncrementMinor_p v h)
         \<and> observed_result (IncrementMinor_p v h) = Some (IncrementMinor (observe h v))"
  using assms
  by (cases "minor_p v"; cases "patch_p v")
     (simp_all add: IncrementMinor_p_def IncrementMinor_def clone_p_def clone_def stmt_defs
        frame_defs nth_append Let_def)

lemma IncrementPatch_p_fresh:
  assumes "allocated h v"
  shows "returns_fresh h v (IncrementPatch_p v h)
         \<and> observed_result (IncrementPatch_p v h) = Some (IncrementPatch (observe h v))"
  using assms
  by (cases "minor_p v"; cases "patch_p v")
     (simp_all add: IncrementPatch_p_def IncrementPatch_def clone_p_def clone_def stmt_defs
        frame_defs nth_append Let_def)

lemma IncrementPessimistic_p_fresh:
  assumes "allocated h v" "patch_needs_minor (observe h v)"
  shows "returns_fresh h v (IncrementPessimistic_p v h)
         \<and> observed_result (IncrementPessimistic_p v h) = IncrementPessimistic (observe h v)"
  using assms
  by (cases "minor_p v"; cases "patch_p v")
     (simp_all add: IncrementPessimistic_p_def IncrementPessimistic_def clone_p_def clone_def
        stmt_defs frame_defs nth_append Let_def patch_needs_minor_def)

lemma IncrementPessimistic_p_panics:
  assumes "allocated h v"
  shows "(IncrementPessimistic_p v h = None) = (\<not> patch_needs_minor (observe h v))"
    and "observed_result (IncrementPessimistic_p v h) = IncrementPessimistic (observe h v)"
  using assms
  by (cases "minor_p v"; cases "patch_p v";
      simp add: IncrementPessimistic_p_def IncrementPessimistic_def clone_p_def clone_def
        stmt_defs frame_defs nth_append Let_def patch_needs_minor_def)+

lemma NewVersion_p_observe:
  "\<exists>w h'. NewVersion_p ma mi pa h = Some (w, h')
          \<and> take (length h) h' = h
          \<and> allocated h' w
          \<and> observe h' w = NewVersion ma mi pa"
  by (simp add: NewVersion_p_def ret_def and_then_def new_cell_def allocated_def cells_def
      observe_def NewVersion_def nth_append)

text \<open>
  Claim C9. Run on a version \<open>v\<close> whose pointers are cells of the store, each of
  \<open>SetPreRelease\<close>, \<open>SetBuildMetadata\<close>, \<open>Increment\<close>, \<open>IncrementMajor\<close>, \<open>IncrementMinor\<close> and
  \<open>IncrementPatch\<close> returns a version; no cell that existed before is changed, so all that
  \<open>v\<close> shows (major, minor, patch, their presence, pre-release, build metadata) is as before;
  and the cells of the returned version are new, none of them a cell of \<open>v\<close>. What the returned
  version shows is the result of the value-level function. The same holds for
  \<open>IncrementPessimistic\<close> on a version that has a minor whenever it has a patch, as every
  obtainable version has; on any other version it panics.
\<close>

theorem mutators_copy_on_write:
  assumes "allocated h v"
  shows "returns_fresh h v (SetPreRelease_p v pre h)
         \<and> observed_result (SetPreRelease_p v pre h) = Some (SetPreRelease (observe h v) pre)
         \<and> returns_fresh h v (SetBuildMetadata_p v bm h)
         \<and> observed_result (SetBuildMetadata_p v bm h) = Some (SetBuildMetadata (observe h v) bm)
         \<and> returns_fresh h v (Increment_p v h)
         \<and> observed_result (Increment_p v h) = Some (Increment (observe h v))
         \<and> returns_fresh h v (IncrementMajor_p v h)
         \<and> observed_result (IncrementMajor_p v h) = Some (IncrementMajor (observe h v))
         \<and> returns_fresh h v (IncrementMinor_p v h)
         \<and> observed_result (IncrementMinor_p v h) = Some (IncrementMinor (observe h v))
         \<and> returns_fresh h v (IncrementPatch_p v h)
         \<and> observed_result (IncrementPatch_p v h) = Some (IncrementPatch (observe h v))
         \<and> (patch_needs_minor (observe h v) \<longrightarrow> returns_fresh h v (IncrementPessimistic_p v h))
         \<and> observed_result (IncrementPessimistic_p v h) = IncrementPessimistic (observe h v)
         \<and> (IncrementPessimistic_p v h = None) = (\<not> patch_needs_minor (observe h v))"
  using SetPreRelease_p_fresh [OF assms] SetBuildMetadata_p_fresh [OF assms]
    Increment_p_fresh [OF assms] IncrementMajor_p_fresh [OF assms]
    IncrementMinor_p_fresh [OF assms] IncrementPatch_p_fresh [OF assms]
    IncrementPessimistic_p_fresh [OF assms] IncrementPessimistic_p_panics [OF assms]
  by blast

text \<open>
  Version 1.2.3-alpha in a store of two cells: \<open>IncrementPessimistic\<close> returns 1.3.0 in two
  new cells and leaves the two old ones as they were.
\<close>

theorem mutators_copy_on_write_witness:
  "allocated [2, 3] \<lparr>major_p = 1, minor_p = Some 0, patch_p = Some 1,
                      preRelease_p = ''alpha'', buildMetadata_p = []\<rparr>
   \<and> observe [2, 3] \<lparr>major_p = 1, minor_p = Some 0, patch_p = Some 1,
                       preRelease_p = ''alpha'', buildMetadata_p = []\<rparr>
       = NewPreReleaseVersion 1 2 3 ''alpha''
   \<and> patch_needs_minor (NewPreReleaseVersion 1 2 3 ''alpha'')
   \<and> IncrementPessimistic_p \<lparr>major_p = 1, minor_p = Some 0, patch_p = Some 1,
                              preRelease_p = ''alpha'', buildMetadata_p = []\<rparr> [2, 3]
       = Some (\<lparr>major_p = 1, minor_p = Some 2, patch_p = Some 3,
                 preRelease_p = [], buildMetadata_p = []\<rparr>, [2, 3, 3, 0])
   \<and> returns_fresh [2, 3] \<lparr>major_p = 1, minor_p = Some 0, patch_p = Some 1,
                            preRelease_p = ''alpha'', buildMetadata_p = []\<rparr>
        (Some (\<lparr>major_p = 1, minor_p = Some 2, patch_p = Some 3,
                 preRelease_p = [], buildMetadata_p = []\<rparr>, [2, 3, 3, 0]))
   \<and> observed_result (Some (\<lparr>major_p = 1, minor_p = Some 2, patch_p = Some 3,
                               preRelease_p = [], buildMetadata_p = []\<rparr>, [2, 3, 3, 0]))
       = Some (NewVersion 1 3 0)"
proof -
  let ?v = "\<lparr>major_p = 1, minor_p = Some 0, patch_p = Some 1,
             preRelease_p = ''alpha'', buildMetadata_p = []\<rparr>"
  let ?h = "[2, 3] :: store"
  let ?r = "Some (\<lparr>major_p = 1, minor_p = Some 2, patch_p = Some 3,
                   preRelease_p = [], buildMetadata_p = []\<rparr>, [2, 3, 3, 0 :: uint64])"
  have a: "allocated ?h ?v"
    by (simp add: allocated_def cells_def)
  have o: "observe ?h ?v = NewPreReleaseVersion 1 2 3 ''alpha''"
    by (simp add: observe_def NewPreReleaseVersion_def)
  have i: "patch_needs_minor (NewPreReleaseVersion 1 2 3 ''alpha'')"
    by (simp add: patch_needs_minor_def NewPreReleaseVersion_def)
  have run: "IncrementPessimistic_p ?v ?h = ?r"
    by (simp add: IncrementPessimistic_p_def clone_p_def stmt_defs Let_def)
  have res: "observed_result ?r = Some (NewVersion 1 3 0)"
    by (simp add: observed_result_def observe_def NewVersion_def)
  from mutators_copy_on_write [OF a] o i
  have "returns_fresh ?h ?v (IncrementPessimistic_p ?v ?h)"
    by simp
  with run have "returns_fresh ?h ?v ?r"
    by simp
  with a o i run res show ?thesis
    by blast
qed

section \<open>The invariant of obtainable versions\<close>

text \<open>
  The two recognisers against cases of the repository's tests (\<open>TestParseValidVersion\<close>,
  \<open>TestParseInvalidVersion\<close> and their strict counterparts).
\<close>

lemma ParseVersion_repository_tests:
  "ParseVersion ''1'' = Some (Inr \<lparr>major = 1, minor = None, patch = None,
                                    preRelease = [], buildMetadata = []\<rparr>)"
  "ParseVersion ''1.2'' = Some (Inr \<lparr>major = 1, minor = Some 2, patch = None,
                                      preRelease = [], buildMetadata = []\<rparr>)"
  "ParseVersion ''1.2.3-0123.0123'' = Some (Inr (NewPreReleaseVersion 1 2 3 ''0123.0123''))"
  "ParseVersion ''1.1.2+.123'' = Some (Inr (SetBuildMetadata (NewVersion 1 1 2) ''.123''))"
  "ParseVersion ''01.1.1'' = Some (Inr (NewVersion 1 1 1))"
  "ParseVersion ''1.2.3.DEV'' = Some (Inr (NewVersion 1 2 3))"
  "ParseVersion ''-1.0.3-gamma+b7718''
     = Some (Inr (SetBuildMetadata (NewPreReleaseVersion 1 0 3 ''gamma'') ''b7718''))"
  "ParseVersion ''9.8.7+meta+meta'' = Some (Inr (SetBuildMetadata (NewVersion 9 8 7) ''meta+meta''))"
  "ParseVersion ''alpha.'' = Some (Inl (RegexMismatch ''alpha.''))"
  "ParseVersion ''99999999999999999999999.9''
     = Some (Inl (MajorError ''99999999999999999999999'' ErrRange))"
  by code_simp+

lemma ParseSemVer_repository_tests:
  "ParseSemVer ''1.0.0-alpha.0valid'' = Some (Inr (NewPreReleaseVersion 1 0 0 ''alpha.0valid''))"
  "ParseSemVer ''1.2.3----RC-SNAPSHOT.12.9.1--.12+788''
     = Some (Inr (SetBuildMetadata (NewPreReleaseVersion 1 2 3 ''---RC-SNAPSHOT.12.9.1--.12'')
                    ''788''))"
  "ParseSemVer ''01.1.1'' = Some (Inl (RegexMismatch ''01.1.1''))"
  "ParseSemVer ''1.2'' = Some (Inl (RegexMismatch ''1.2''))"
  "ParseSemVer ''1.2.3-0123'' = Some (Inl (RegexMismatch ''1.2.3-0123''))"
  "ParseSemVer ''1.1.2+.123'' = Some (Inl (RegexMismatch ''1.1.2+.123''))"
  "ParseSemVer ''9.8.7+meta+meta'' = Some (Inl (RegexMismatch ''9.8.7+meta+meta''))"
  by code_simp+

lemma dot_digits_fails:
  "fst (snd (dot_digits r)) = [] \<Longrightarrow> dot_digits r = ([], [], r)"
  by (auto simp add: dot_digits_def split: list.splits if_splits)

lemma version_find_shape:
  "version_find s = []
   \<or> (\<exists>ma dm mi dp pa pre pb bm.
         version_find s = [s, ma, dm, mi, dp, pa, pre, pb, bm] \<and> (mi = [] \<longrightarrow> pa = []))"
proof (cases "version_find s = []")
  case True
  then show ?thesis by simp
next
  case False
  let ?s1 = "dropWhile (\<lambda>c. \<not> is_digit c) s"
  let ?r1 = "dropWhile is_digit ?s1"
  obtain dm mi r2 where m: "dot_digits ?r1 = (dm, mi, r2)"
    by (cases "dot_digits ?r1") auto
  obtain dp pa r3 where p: "dot_digits r2 = (dp, pa, r3)"
    by (cases "dot_digits r2") auto
  obtain pre r4 where d: "dash_prerelease r3 = (pre, r4)"
    by (cases "dash_prerelease r3") auto
  obtain pb bm r5 where b: "plus_build r4 = (pb, bm, r5)"
    by (cases "plus_build r4") auto
  from False have "version_find s = [s, takeWhile is_digit ?s1, dm, mi, dp, pa, pre, pb, bm]"
    by (simp add: version_find_def Let_def m p d b split: if_splits)
  moreover have "mi = [] \<longrightarrow> pa = []"
  proof
    assume "mi = []"
    with m dot_digits_fails [of ?r1] have "r2 = ?r1" "dot_digits ?r1 = ([], [], ?r1)"
      by simp_all
    with p show "pa = []" by simp
  qed
  ultimately show ?thesis by blast
qed

lemma parseGroups_version_invariant:
  assumes "parseGroups (SubexpNames versionRegex) [w, ma, dm, mi, dp, pa, pre, pb, bm] zeroVersion
             = Inr v"
    and "mi = [] \<longrightarrow> pa = []"
  shows "patch_needs_minor v"
  using assms
  by (auto simp add: versionRegex_def zeroVersion_def patch_needs_minor_def
      split: sum.splits if_splits)

lemma ParseVersion_invariant:
  assumes "ParseVersion s = Some (Inr v)"
  shows "patch_needs_minor v"
proof -
  have f: "FindStringSubmatch versionRegex = version_find"
    by (simp add: versionRegex_def)
  from version_find_shape [of s] show ?thesis
  proof
    assume "version_find s = []"
    with assms show ?thesis
      by (simp add: ParseVersion_def parseVersion_def f)
  next
    assume "\<exists>ma dm mi dp pa pre pb bm.
         version_find s = [s, ma, dm, mi, dp, pa, pre, pb, bm] \<and> (mi = [] \<longrightarrow> pa = [])"
    then obtain ma dm mi dp pa pre pb bm
      where shape: "version_find s = [s, ma, dm, mi, dp, pa, pre, pb, bm]"
        and imp: "mi = [] \<longrightarrow> pa = []"
      by blast
    from assms shape
    have "parseGroups (SubexpNames versionRegex) [s, ma, dm, mi, dp, pa, pre, pb, bm] zeroVersion
            = Inr v"
      by (simp add: ParseVersion_def parseVersion_def f Let_def split: if_splits)
    from parseGroups_version_invariant [OF this imp] show ?thesis .
  qed
qed

lemma semVer_find_shape:
  "semVer_find s = []
   \<or> (\<exists>ma mi pa pre bm. semVer_find s = [s, ma, mi, pa, pre, bm] \<and> mi \<noteq> [])"
  by (auto simp add: semVer_find_def Let_def numeric_ident_def
      split: list.splits if_splits option.splits)

lemma ParseSemVer_invariant:
  assumes "ParseSemVer s = Some (Inr v)"
  shows "patch_needs_minor v"
proof -
  have f: "FindStringSubmatch semVerRegex = semVer_find"
    by (simp add: semVerRegex_def)
  from semVer_find_shape [of s] show ?thesis
  proof
    assume "semVer_find s = []"
    with assms show ?thesis
      by (simp add: ParseSemVer_def parseVersion_def f)
  next
    assume "\<exists>ma mi pa pre bm. semVer_find s = [s, ma, mi, pa, pre, bm] \<and> mi \<noteq> []"
    then obtain ma mi pa pre bm
      where shape: "semVer_find s = [s, ma, mi, pa, pre, bm]" and mi: "mi \<noteq> []"
      by blast
    from assms shape
    have "parseGroups (SubexpNames semVerRegex) [s, ma, mi, pa, pre, bm] zeroVersion = Inr v"
      by (simp add: ParseSemVer_def parseVersion_def f Let_def split: if_splits)
    with mi show ?thesis
      by (auto simp add: semVerRegex_def zeroVersion_def patch_needs_minor_def
          split: sum.splits if_splits)
  qed
qed

lemma clone_id: "clone v = v"
  by (cases v) (simp add: clone_def split: option.splits)

lemma setters_invariant:
  "patch_needs_minor v \<Longrightarrow> patch_needs_minor (SetPreRelease v pre)"
  "patch_needs_minor v \<Longrightarrow> patch_needs_minor (SetBuildMetadata v bm)"
  by (simp_all add: patch_needs_minor_def SetPreRelease_def SetBuildMetadata_def clone_id)

lemma increments_invariant:
  "patch_needs_minor v \<Longrightarrow> patch_needs_minor (Increment v)"
  "patch_needs_minor (IncrementMajor v)"
  "patch_needs_minor (IncrementMinor v)"
  "patch_needs_minor (IncrementPatch v)"
  by (auto simp add: patch_needs_minor_def Increment_def IncrementMajor_def IncrementMinor_def
      IncrementPatch_def clone_id Let_def split: option.splits)

lemma IncrementPessimistic_invariant:
  "IncrementPessimistic v = Some w \<Longrightarrow> patch_needs_minor w"
  by (auto simp add: patch_needs_minor_def IncrementPessimistic_def clone_id Let_def
      split: option.splits)

text \<open>
  Claim C10. Every version obtainable through the public functions (the constructors, the two
  version parsers, and the setters and increments applied to such a version) has a minor
  whenever it has a patch, and so \<open>IncrementPessimistic\<close> returns on it: in whatever store
  and cells the version is held, the dereference of the minor pointer in the branch for a
  present patch does not fault.
\<close>

theorem obtainable_patch_needs_minor:
  assumes "obtainable v"
  shows "patch_needs_minor v
         \<and> (\<exists>w. IncrementPessimistic v = Some w)
         \<and> (\<forall>h p. allocated h p \<and> observe h p = v \<longrightarrow> IncrementPessimistic_p p h \<noteq> None)"
proof -
  from assms have "patch_needs_minor v"
  proof (induction rule: obtainable.induct)
    case zero
    show ?case by (simp add: patch_needs_minor_def zeroVersion_def)
  next
    case (new ma mi pa)
    show ?case by (simp add: patch_needs_minor_def NewVersion_def)
  next
    case (new_pre ma mi pa pre)
    show ?case by (simp add: patch_needs_minor_def NewPreReleaseVersion_def)
  next
    case (parse s v)
    then show ?case by (rule ParseVersion_invariant)
  next
    case (parse_strict s v)
    then show ?case by (rule ParseSemVer_invariant)
  next
    case (set_pre v pre)
    then show ?case by (simp add: setters_invariant)
  next
    case (set_build v bm)
    then show ?case by (simp add: setters_invariant)
  next
    case (inc v)
    then show ?case by (simp add: increments_invariant)
  next
    case (inc_major v)
    show ?case by (rule increments_invariant)
  next
    case (inc_minor v)
    show ?case by (rule increments_invariant)
  next
    case (inc_patch v)
    show ?case by (rule increments_invariant)
  next
    case (inc_pessimistic v w)
    then show ?case by (simp add: IncrementPessimistic_invariant)
  qed
  with IncrementPessimistic_total [of v] IncrementPessimistic_p_panics(1) show ?thesis
    by blast
qed

text \<open>
  The version parsed from \<open>"1"\<close> has neither minor nor patch; \<open>IncrementPatch\<close> makes it
  1.0.1, on which \<open>IncrementPessimistic\<close> returns 1.1.0.
\<close>

theorem obtainable_patch_needs_minor_witness:
  "obtainable (IncrementPatch \<lparr>major = 1, minor = None, patch = None, preRelease = [],
                               buildMetadata = []\<rparr>)
   \<and> ParseVersion ''1'' = Some (Inr \<lparr>major = 1, minor = None, patch = None, preRelease = [],
                                     buildMetadata = []\<rparr>)
   \<and> IncrementPatch \<lparr>major = 1, minor = None, patch = None, preRelease = [],
                      buildMetadata = []\<rparr> = NewVersion 1 0 1
   \<and> patch_needs_minor (NewVersion 1 0 1)
   \<and> IncrementPessimistic (NewVersion 1 0 1) = Some (NewVersion 1 1 0)"
proof -
  let ?v = "\<lparr>major = 1, minor = None, patch = None, preRelease = [], buildMetadata = []\<rparr>"
  have p: "ParseVersion ''1'' = Some (Inr ?v)"
    by code_simp
  then have o: "obtainable (IncrementPatch ?v)"
    by (intro obtainable.inc_patch obtainable.parse)
  have e: "IncrementPatch ?v = NewVersion 1 0 1"
    by code_simp
  have i: "IncrementPessimistic (NewVersion 1 0 1) = Some (NewVersion 1 1 0)"
    by code_simp
  from obtainable_patch_needs_minor [OF o] have "patch_needs_minor (IncrementPatch ?v)"
    by blast
  with e have "patch_needs_minor (NewVersion 1 0 1)"
    by simp
  with o p e i show ?thesis
    by blast
qed

end
